theory Spec2Isabelle
  imports Complex_Main "HOL-Library.Word"
begin

unbundle bit_operations_syntax

section \<open>Radar product manager (radar\_product\_manager.cpp)\<close>

subsection \<open>Time\<close>

text \<open>
  A \<open>std::chrono::system_clock::time_point\<close> is a signed count of clock ticks since the
  epoch; the default-constructed time point is 0. The tick length is fixed by the
  platform, so the number of ticks per second (\<open>tps\<close>) and per millisecond (\<open>tpm\<close>) is a
  parameter of the functions that convert. \<open>duration_cast\<close> and \<open>time_point_cast\<close>
  divide as C++ does, truncating towards zero.

  Where the source computes with durations, the tick counts are signed 64-bit integers:
  \<open>ticks\<close> is the 64-bit word, read as two's complement by \<open>sint\<close>, and a sum or
  difference that leaves the range wraps around as the machine arithmetic does.
\<close>

type_synonym time_point = int
type_synonym ticks = "64 word"

definition trunc_div :: "int \<Rightarrow> int \<Rightarrow> int" where
  "trunc_div a b =
     (if (a < 0) = (b < 0) then \<bar>a\<bar> div \<bar>b\<bar> else - (\<bar>a\<bar> div \<bar>b\<bar>))"

text \<open>\<open>duration_cast<milliseconds>\<close> of a duration in clock ticks.\<close>

definition duration_cast_ms :: "int \<Rightarrow> ticks \<Rightarrow> int" where
  "duration_cast_ms tpm d = trunc_div (sint d) tpm"

text \<open>
  \<open>time_point_cast<seconds>\<close>; the result is used as a key of a map of system clock time
  points, so it is converted back to ticks.
\<close>

definition time_point_cast_seconds :: "int \<Rightarrow> time_point \<Rightarrow> time_point" where
  "time_point_cast_seconds tps t = trunc_div t tps * tps"

subsection \<open>Provider manager\<close>

text \<open>
  Modelled from the spec: \<open>common::RadarProductGroup\<close> (its header is not among the
  sources) is the enum \<open>{Level2, Level3}\<close>.
\<close>

datatype RadarProductGroup = Level2 | Level3

record ProviderManager =
  radarId :: string
  group :: RadarProductGroup
  product :: string
  refreshEnabled :: bool
  refreshTimer :: "int option"
    \<comment> \<open>the single-shot timer: \<open>Some ms\<close> when armed to expire after \<open>ms\<close> milliseconds\<close>

definition ProviderManager_new :: "string \<Rightarrow> RadarProductGroup \<Rightarrow> string \<Rightarrow> ProviderManager" where
  "ProviderManager_new rid g prd =
     \<lparr>radarId = rid, group = g, product = prd, refreshEnabled = False, refreshTimer = None\<rparr>"

text \<open>The three-argument constructor delegates with the product \<open>"???"\<close>.\<close>

definition ProviderManager_new_group :: "string \<Rightarrow> RadarProductGroup \<Rightarrow> ProviderManager" where
  "ProviderManager_new_group rid g = ProviderManager_new rid g ''???''"

definition Disable :: "ProviderManager \<Rightarrow> ProviderManager" where
  "Disable pm = pm\<lparr>refreshEnabled := False, refreshTimer := None\<rparr>"

text \<open>
  What the data provider answers during one run of the refresh body: the pair returned by
  \<open>Refresh()\<close>, the time point of the latest key, the update period, the time of last
  modification, and the reading of the system clock.
\<close>

record provider_view =
  newObjects :: nat
  totalObjects :: nat
  latestTime :: time_point
  update_period :: ticks
  last_modified :: ticks
  now :: ticks

text \<open>What a refresh does to the outside: the provider call and the signal.\<close>

datatype effect =
  Refresh
  | NewDataAvailable RadarProductGroup string time_point

definition kRetryInterval_ms :: int where
  "kRetryInterval_ms = 15000"

text \<open>
  \<open>RadarProductManagerImpl::RefreshData\<close>: the timer is cancelled, then the body posted to
  the worker pool runs (here as one step).
\<close>

definition RefreshData :: "int \<Rightarrow> ProviderManager \<Rightarrow> provider_view \<Rightarrow> ProviderManager \<times> effect list" where
  "RefreshData tpm providerManager pv =
     (let pm0 = providerManager\<lparr>refreshTimer := None\<rparr>;
          interval0 = kRetryInterval_ms;
          interval =
            (if 0 < newObjects pv
             then (let i = duration_cast_ms tpm
                             (update_period pv - (now pv - last_modified pv))
                   in if i < kRetryInterval_ms then kRetryInterval_ms else i)
             else interval0);
          signals =
            (if 0 < newObjects pv
             then [NewDataAvailable (group pm0) (product pm0) (latestTime pv)]
             else []);
          pm1 =
            (if 0 < newObjects pv then pm0
             else if refreshEnabled pm0 \<and> totalObjects pv = 0
             then pm0\<lparr>refreshEnabled := False\<rparr>
             else pm0);
          pm2 =
            (if refreshEnabled pm1 then pm1\<lparr>refreshTimer := Some interval\<rparr> else pm1)
      in (pm2, Refresh # signals))"

definition EnableRefresh :: "int \<Rightarrow> ProviderManager \<Rightarrow> bool \<Rightarrow> provider_view \<Rightarrow> ProviderManager \<times> effect list" where
  "EnableRefresh tpm providerManager enabled pv =
     (if refreshEnabled providerManager \<noteq> enabled
      then (let pm = providerManager\<lparr>refreshEnabled := enabled\<rparr>
            in if enabled then RefreshData tpm pm pv else (pm, []))
      else (providerManager, []))"

fun is_signal :: "effect \<Rightarrow> bool" where
  "is_signal Refresh = False"
| "is_signal (NewDataAvailable g p t) = True"

subsection \<open>Record cache\<close>

record RadarProductRecord =
  time :: time_point
  radar_product_group :: RadarProductGroup
  radar_product :: string
  radar_id :: string
  start_time :: time_point
    \<comment> \<open>\<open>level2_file()->start_time()\<close> of the file the record holds\<close>
  nexrad_file :: nat
    \<comment> \<open>the decoded file, by identity\<close>

text \<open>
  \<open>RadarProductRecordMap\<close> is a \<open>std::map\<close> from time points to records: the entries in
  ascending key order, no key twice.
\<close>

type_synonym RadarProductRecordMap = "(time_point \<times> RadarProductRecord) list"

definition map_ok :: "RadarProductRecordMap \<Rightarrow> bool" where
  "map_ok m = (sorted (map fst m) \<and> distinct (map fst m))"

text \<open>\<open>m[k] = v\<close>: overwrite the entry at \<open>k\<close>, or add it at its place in the order.\<close>

fun map_assign :: "time_point \<Rightarrow> RadarProductRecord \<Rightarrow> RadarProductRecordMap \<Rightarrow> RadarProductRecordMap" where
  "map_assign k v [] = [(k, v)]"
| "map_assign k v ((k', v') # m) =
     (if k < k' then (k, v) # (k', v') # m
      else if k = k' then (k, v) # m
      else (k', v') # map_assign k v m)"

record RadarProductManagerImpl =
  level2ProductRecords :: RadarProductRecordMap
  level3ProductRecordsMap :: "string \<rightharpoonup> RadarProductRecordMap"

definition StoreRadarProductRecord ::
  "int \<Rightarrow> RadarProductManagerImpl \<Rightarrow> RadarProductRecord \<Rightarrow> RadarProductManagerImpl \<times> RadarProductRecord" where
  "StoreRadarProductRecord tps st record =
     (let timeInSeconds = time_point_cast_seconds tps (time record)
      in if radar_product_group record = Level2
         then (case map_of (level2ProductRecords st) timeInSeconds of
                 Some stored \<Rightarrow> (st, stored)
               | None \<Rightarrow>
                   (st\<lparr>level2ProductRecords :=
                         map_assign timeInSeconds record (level2ProductRecords st)\<rparr>, record))
         else if radar_product_group record = Level3
         then (let productMap =
                     (case level3ProductRecordsMap st (radar_product record) of
                        None \<Rightarrow> [] | Some m \<Rightarrow> m);
                   st1 = st\<lparr>level3ProductRecordsMap :=
                              (level3ProductRecordsMap st)(radar_product record \<mapsto> productMap)\<rparr>
               in case map_of productMap timeInSeconds of
                    Some stored \<Rightarrow> (st1, stored)
                  | None \<Rightarrow>
                      (st1\<lparr>level3ProductRecordsMap :=
                             (level3ProductRecordsMap st1)
                               (radar_product record \<mapsto> map_assign timeInSeconds record productMap)\<rparr>,
                       record))
         else (st, record))"

text \<open>
  Modelled from the spec: \<open>util::GetBoundedElementValue\<close> (scwx/util/map.hpp is not among
  the sources) is the lookup of the greatest key \<open>\<le> t\<close> that the spec gives the record
  map; it yields null when no key is \<open>\<le> t\<close>.
\<close>

definition GetBoundedElementValue :: "RadarProductRecordMap \<Rightarrow> time_point \<Rightarrow> RadarProductRecord option" where
  "GetBoundedElementValue m t =
     (case filter (\<lambda>kv. fst kv \<le> t) m of
        [] \<Rightarrow> None
      | kv # kvs \<Rightarrow> Some (snd (last (kv # kvs))))"

definition GetLevel2ProductRecord :: "RadarProductManagerImpl \<Rightarrow> time_point \<Rightarrow> RadarProductRecord option" where
  "GetLevel2ProductRecord st t =
     (if level2ProductRecords st \<noteq> [] \<and> t = 0
      then Some (snd (last (level2ProductRecords st)))
      else (case GetBoundedElementValue (level2ProductRecords st) t of
              None \<Rightarrow> None
            | Some record \<Rightarrow> if t < start_time record then None else Some record))"

section \<open>Input streams\<close>

text \<open>
  A \<open>std::istream\<close> over a seekable in-memory buffer: the bytes, the read position and
  the state bits \<open>eofbit\<close> and \<open>failbit\<close> (\<open>badbit\<close> is never set by such a buffer).
  Every input function first constructs the sentry, which sets \<open>failbit\<close> when the stream
  is not good; a read that meets the end of the buffer sets \<open>eofbit\<close>; a seek first
  clears \<open>eofbit\<close> and does nothing further on a failed stream; \<open>tellg\<close> answers
  \<open>-1\<close> on a failed stream.
\<close>

record 'a istream =
  buf :: "'a list"
  rdpos :: nat
  eofbit :: bool
  failbit :: bool

definition good :: "'a istream \<Rightarrow> bool" where
  "good is = (\<not> eofbit is \<and> \<not> failbit is)"

definition sentry :: "'a istream \<Rightarrow> bool \<times> 'a istream" where
  "sentry is = (if good is then (True, is) else (False, is\<lparr>failbit := True\<rparr>))"

definition read :: "nat \<Rightarrow> 'a istream \<Rightarrow> 'a list \<times> 'a istream" where
  "read n is =
     (case sentry is of
        (False, is1) \<Rightarrow> ([], is1)
      | (True, is1) \<Rightarrow>
          (let got = take n (drop (rdpos is1) (buf is1))
           in if rdpos is1 + n \<le> length (buf is1)
              then (got, is1\<lparr>rdpos := rdpos is1 + n\<rparr>)
              else (got, is1\<lparr>rdpos := length (buf is1), eofbit := True, failbit := True\<rparr>)))"

definition peek :: "'a istream \<Rightarrow> 'a option \<times> 'a istream" where
  "peek is =
     (case sentry is of
        (False, is1) \<Rightarrow> (None, is1)
      | (True, is1) \<Rightarrow>
          if rdpos is1 < length (buf is1)
          then (Some (buf is1 ! rdpos is1), is1)
          else (None, is1\<lparr>eofbit := True\<rparr>))"

definition get :: "'a istream \<Rightarrow> 'a option \<times> 'a istream" where
  "get is =
     (case sentry is of
        (False, is1) \<Rightarrow> (None, is1)
      | (True, is1) \<Rightarrow>
          if rdpos is1 < length (buf is1)
          then (Some (buf is1 ! rdpos is1), is1\<lparr>rdpos := Suc (rdpos is1)\<rparr>)
          else (None, is1\<lparr>eofbit := True, failbit := True\<rparr>))"

definition tellg :: "'a istream \<Rightarrow> int \<times> 'a istream" where
  "tellg is =
     (case sentry is of
        (False, is1) \<Rightarrow> (- 1, is1)
      | (True, is1) \<Rightarrow> (int (rdpos is1), is1))"

definition seekg_beg :: "int \<Rightarrow> 'a istream \<Rightarrow> 'a istream" where
  "seekg_beg p is =
     (let is1 = is\<lparr>eofbit := False\<rparr>
      in if failbit is1 then is1
         else if 0 \<le> p \<and> p \<le> int (length (buf is1)) then is1\<lparr>rdpos := nat p\<rparr>
         else is1\<lparr>failbit := True\<rparr>)"

definition seekg_cur :: "int \<Rightarrow> 'a istream \<Rightarrow> 'a istream" where
  "seekg_cur off is = seekg_beg (int (rdpos is) + off) is"

text \<open>
  \<open>is.read(dst, n)\<close> into memory that holds \<open>old\<close> (\<open>n = length old\<close>): the bytes read
  overwrite the front of the destination, the rest keeps what it held.
\<close>

definition read_into :: "'a list \<Rightarrow> 'a istream \<Rightarrow> 'a list \<times> 'a istream" where
  "read_into old is =
     (case read (length old) is of (got, is1) \<Rightarrow> (got @ drop (length got) old, is1))"

section \<open>Message 31: digital radar data (digital\_radar\_data.cpp)\<close>

subsection \<open>Integers in memory\<close>

type_synonym byte = "8 word"

text \<open>
  The host is little-endian: the bytes of an integer in memory, lowest first, and the
  integer that \<open>n\<close> bytes of memory hold.
\<close>

primrec mem :: "nat \<Rightarrow> 'a::len word \<Rightarrow> byte list" where
  "mem 0 v = []"
| "mem (Suc n) v = ucast v # mem n (drop_bit 8 v)"

primrec le_word :: "byte list \<Rightarrow> 'a::len word" where
  "le_word [] = 0"
| "le_word (b # bs) = ucast b OR push_bit 8 (le_word bs)"

definition ntohs :: "16 word \<Rightarrow> 16 word" where
  "ntohs v = le_word (rev (mem 2 v))"

definition ntohl :: "32 word \<Rightarrow> 32 word" where
  "ntohl v = le_word (rev (mem 4 v))"

text \<open>
  Modelled from the spec: \<open>Message::SwapFloat\<close>, \<open>Message::SwapArray\<close> and
  \<open>Message::SwapVector\<close> (the message base class is not among the sources). A float is
  kept as its 32-bit pattern and swapped by reinterpreting it as a 32-bit unsigned and
  byte-swapping; \<open>SwapArray(a, n)\<close> byte-swaps the first \<open>n\<close> elements of a fixed array
  in place, \<open>SwapVector\<close> every element of a vector.
\<close>

definition SwapFloat :: "32 word \<Rightarrow> 32 word" where
  "SwapFloat f = ntohl f"

definition SwapArray :: "32 word list \<Rightarrow> nat \<Rightarrow> 32 word list" where
  "SwapArray a n = map ntohl (take n a) @ drop n a"

definition SwapVector :: "16 word list \<Rightarrow> 16 word list" where
  "SwapVector v = map ntohs v"

text \<open>Reading an integer of \<open>n\<close> bytes into a field that holds \<open>old\<close>.\<close>

definition read_word :: "nat \<Rightarrow> 'a::len word \<Rightarrow> byte istream \<Rightarrow> 'a word \<times> byte istream" where
  "read_word n old is = (case read_into (mem n old) is of (bs, is1) \<Rightarrow> (le_word bs, is1))"

text \<open>Memory seen as an array of 2-byte or of 4-byte integers.\<close>

fun words16 :: "byte list \<Rightarrow> 16 word list" where
  "words16 (a # b # bs) = le_word [a, b] # words16 bs"
| "words16 bs = []"

fun words32 :: "byte list \<Rightarrow> 32 word list" where
  "words32 (a # b # c # d # bs) = le_word [a, b, c, d] # words32 bs"
| "words32 bs = []"

definition bytes_of :: "string \<Rightarrow> byte list" where
  "bytes_of s = map of_char s"

subsection \<open>Data blocks\<close>

datatype DataBlockType =
  Volume | Elevation | Radial
  | MomentRef | MomentVel | MomentSw | MomentZdr | MomentPhi | MomentRho | MomentCfp
  | Unknown

text \<open>\<open>strToDataBlock_.at(dataName)\<close>, with \<open>Unknown\<close> where \<open>at\<close> throws.\<close>

definition strToDataBlock :: "byte list \<Rightarrow> DataBlockType" where
  "strToDataBlock dataName =
     (if dataName = bytes_of ''VOL'' then Volume
      else if dataName = bytes_of ''ELV'' then Elevation
      else if dataName = bytes_of ''RAD'' then Radial
      else if dataName = bytes_of ''REF'' then MomentRef
      else if dataName = bytes_of ''VEL'' then MomentVel
      else if dataName = bytes_of ''SW '' then MomentSw
      else if dataName = bytes_of ''ZDR'' then MomentZdr
      else if dataName = bytes_of ''PHI'' then MomentPhi
      else if dataName = bytes_of ''RHO'' then MomentRho
      else if dataName = bytes_of ''CFP'' then MomentCfp
      else Unknown)"

record MomentDataBlock =
  mom_dataBlockType :: "byte list"
  mom_dataName :: "byte list"
  numberOfDataMomentGates :: "16 word"
  dataMomentRange :: "16 word"
  dataMomentRangeSampleInterval :: "16 word"
  tover :: "16 word"
  snrThreshold :: "16 word"
  controlFlags :: byte
  dataWordSize :: byte
  scale :: "32 word"
  offset :: "32 word"
  momentGates8 :: "byte list"
  momentGates16 :: "16 word list"

text \<open>
  \<open>MomentDataBlock::Create\<close>, in two parts: the fixed fields (bytes 4 to 27 of the
  block) with their byte swaps, then the gates.
\<close>

definition MomentDataBlock_fields ::
  "byte list \<Rightarrow> byte list \<Rightarrow> byte istream \<Rightarrow> MomentDataBlock \<times> byte istream" where
  "MomentDataBlock_fields dataBlockType dataName is0 =
     (let is1 = seekg_cur 4 is0;
          (gates, is2) = read_word 2 0 is1;
          (range, is3) = read_word 2 0 is2;
          (interval, is4) = read_word 2 0 is3;
          (tov, is5) = read_word 2 0 is4;
          (snr, is6) = read_word 2 0 is5;
          (flags, is7) = read_word 1 0 is6;
          (wordSize, is8) = read_word 1 0 is7;
          (sc, is9) = read_word 4 0 is8;
          (off, is10) = read_word 4 0 is9
      in (\<lparr>mom_dataBlockType = dataBlockType, mom_dataName = dataName,
           numberOfDataMomentGates = ntohs gates,
           dataMomentRange = ntohs range,
           dataMomentRangeSampleInterval = ntohs interval,
           tover = ntohs tov,
           snrThreshold = ntohs snr,
           controlFlags = flags,
           dataWordSize = wordSize,
           scale = SwapFloat sc,
           offset = SwapFloat off,
           momentGates8 = [],
           momentGates16 = []\<rparr>, is10))"

definition MomentDataBlock_gates :: "MomentDataBlock \<Rightarrow> byte istream \<Rightarrow> MomentDataBlock \<times> byte istream" where
  "MomentDataBlock_gates p is =
     (if unat (numberOfDataMomentGates p) \<le> 1840
      then if dataWordSize p = 8
           then (case read_into (replicate (unat (numberOfDataMomentGates p)) 0) is of
                   (gates, is1) \<Rightarrow> (p\<lparr>momentGates8 := gates\<rparr>, is1))
           else if dataWordSize p = 16
           then (case read_into (replicate (unat (numberOfDataMomentGates p) * 2) 0) is of
                   (gates, is1) \<Rightarrow> (p\<lparr>momentGates16 := SwapVector (words16 gates)\<rparr>, is1))
           else (p, is)
      else (p, is))"

definition MomentDataBlock_Create ::
  "byte list \<Rightarrow> byte list \<Rightarrow> byte istream \<Rightarrow> MomentDataBlock \<times> byte istream" where
  "MomentDataBlock_Create dataBlockType dataName is =
     (case MomentDataBlock_fields dataBlockType dataName is of
        (p, is1) \<Rightarrow> MomentDataBlock_gates p is1)"

record VolumeDataBlock =
  vol_dataBlockType :: "byte list"
  vol_dataName :: "byte list"
  vol_lrtup :: "16 word"
  versionNumberMajor :: byte
  versionNumberMinor :: byte
  latitude :: "32 word"
  longitude :: "32 word"
  siteHeight :: "16 word"
  feedhornHeight :: "16 word"
  vol_calibrationConstant :: "32 word"
  horizontaShvTxPower :: "32 word"
  verticalShvTxPower :: "32 word"
  systemDifferentialReflectivity :: "32 word"
  initialSystemDifferentialPhase :: "32 word"
  volumeCoveragePatternNumber :: "16 word"
  processingStatus :: "16 word"

definition VolumeDataBlock_Create ::
  "byte list \<Rightarrow> byte list \<Rightarrow> byte istream \<Rightarrow> VolumeDataBlock \<times> byte istream" where
  "VolumeDataBlock_Create dataBlockType dataName is0 =
     (let (lrtup, is1) = read_word 2 0 is0;
          (major, is2) = read_word 1 0 is1;
          (minor, is3) = read_word 1 0 is2;
          (lat, is4) = read_word 4 0 is3;
          (lon, is5) = read_word 4 0 is4;
          (height, is6) = read_word 2 0 is5;
          (feedhorn, is7) = read_word 2 0 is6;
          (calib, is8) = read_word 4 0 is7;
          (hpower, is9) = read_word 4 0 is8;
          (vpower, is10) = read_word 4 0 is9;
          (zdr, is11) = read_word 4 0 is10;
          (phase, is12) = read_word 4 0 is11;
          (vcp, is13) = read_word 2 0 is12;
          (status, is14) = read_word 2 0 is13
      in (\<lparr>vol_dataBlockType = dataBlockType, vol_dataName = dataName,
           vol_lrtup = ntohs lrtup,
           versionNumberMajor = major,
           versionNumberMinor = minor,
           latitude = SwapFloat lat,
           longitude = SwapFloat lon,
           siteHeight = ntohs height,
           feedhornHeight = ntohs feedhorn,
           vol_calibrationConstant = SwapFloat calib,
           horizontaShvTxPower = SwapFloat hpower,
           verticalShvTxPower = SwapFloat vpower,
           systemDifferentialReflectivity = SwapFloat zdr,
           initialSystemDifferentialPhase = SwapFloat phase,
           volumeCoveragePatternNumber = ntohs vcp,
           processingStatus = ntohs status\<rparr>, is14))"

record ElevationDataBlock =
  elv_dataBlockType :: "byte list"
  elv_dataName :: "byte list"
  elv_lrtup :: "16 word"
  atmos :: "16 word"
  elv_calibrationConstant :: "32 word"

definition ElevationDataBlock_Create ::
  "byte list \<Rightarrow> byte list \<Rightarrow> byte istream \<Rightarrow> ElevationDataBlock \<times> byte istream" where
  "ElevationDataBlock_Create dataBlockType dataName is0 =
     (let (lrtup, is1) = read_word 2 0 is0;
          (atm, is2) = read_word 2 0 is1;
          (calib, is3) = read_word 4 0 is2
      in (\<lparr>elv_dataBlockType = dataBlockType, elv_dataName = dataName,
           elv_lrtup = ntohs lrtup,
           atmos = ntohs atm,
           elv_calibrationConstant = SwapFloat calib\<rparr>, is3))"

record RadialDataBlock =
  rad_dataBlockType :: "byte list"
  rad_dataName :: "byte list"
  rad_lrtup :: "16 word"
  unambigiousRange :: "16 word"
  noiseLevelHorizontal :: "32 word"
  noiseLevelVertical :: "32 word"
  nyquistVelocity :: "16 word"
  radialFlags :: "16 word"
  calibrationConstantHorizontal :: "32 word"
  calibrationConstantVertical :: "32 word"

definition RadialDataBlock_Create ::
  "byte list \<Rightarrow> byte list \<Rightarrow> byte istream \<Rightarrow> RadialDataBlock \<times> byte istream" where
  "RadialDataBlock_Create dataBlockType dataName is0 =
     (let (lrtup, is1) = read_word 2 0 is0;
          (range, is2) = read_word 2 0 is1;
          (noiseh, is3) = read_word 4 0 is2;
          (noisev, is4) = read_word 4 0 is3;
          (nyquist, is5) = read_word 2 0 is4;
          (flags, is6) = read_word 2 0 is5;
          (calibh, is7) = read_word 4 0 is6;
          (calibv, is8) = read_word 4 0 is7
      in (\<lparr>rad_dataBlockType = dataBlockType, rad_dataName = dataName,
           rad_lrtup = ntohs lrtup,
           unambigiousRange = ntohs range,
           noiseLevelHorizontal = SwapFloat noiseh,
           noiseLevelVertical = SwapFloat noisev,
           nyquistVelocity = ntohs nyquist,
           radialFlags = ntohs flags,
           calibrationConstantHorizontal = SwapFloat calibh,
           calibrationConstantVertical = SwapFloat calibv\<rparr>, is8))"

subsection \<open>The message\<close>

record DigitalRadarData =
  radarIdentifier :: "byte list"
  collectionTime :: "32 word"
  modifiedJulianDate :: "16 word"
  azimuthNumber :: "16 word"
  azimuthAngle :: "32 word"
  compressionIndicator :: byte
  radialLength :: "16 word"
  azimuthResolutionSpacing :: byte
  radialStatus :: byte
  elevationNumber :: byte
  cutSectorNumber :: byte
  elevationAngle :: "32 word"
  radialSpotBlankingStatus :: byte
  azimuthIndexingMode :: byte
  dataBlockCount :: "16 word"
  dataBlockPointer :: "32 word list"
  volumeDataBlock :: "VolumeDataBlock option"
  elevationDataBlock :: "ElevationDataBlock option"
  radialDataBlock :: "RadialDataBlock option"
  momentRefDataBlock :: "MomentDataBlock option"
  momentVelDataBlock :: "MomentDataBlock option"
  momentSwDataBlock :: "MomentDataBlock option"
  momentZdrDataBlock :: "MomentDataBlock option"
  momentPhiDataBlock :: "MomentDataBlock option"
  momentRhoDataBlock :: "MomentDataBlock option"
  momentCfpDataBlock :: "MomentDataBlock option"

text \<open>The message as \<open>DigitalRadarDataImpl()\<close> constructs it.\<close>

definition DigitalRadarDataImpl :: DigitalRadarData where
  "DigitalRadarDataImpl =
     \<lparr>radarIdentifier = [], collectionTime = 0, modifiedJulianDate = 0, azimuthNumber = 0,
      azimuthAngle = 0, compressionIndicator = 0, radialLength = 0,
      azimuthResolutionSpacing = 0, radialStatus = 0, elevationNumber = 0,
      cutSectorNumber = 0, elevationAngle = 0, radialSpotBlankingStatus = 0,
      azimuthIndexingMode = 0, dataBlockCount = 0, dataBlockPointer = replicate 10 0,
      volumeDataBlock = None, elevationDataBlock = None, radialDataBlock = None,
      momentRefDataBlock = None, momentVelDataBlock = None, momentSwDataBlock = None,
      momentZdrDataBlock = None, momentPhiDataBlock = None, momentRhoDataBlock = None,
      momentCfpDataBlock = None\<rparr>"

text \<open>
  \<open>DigitalRadarData::Parse\<close>, first part: the fixed fields at offsets 0 to 31 and their
  byte swaps. The fields are read over what the message held before.
\<close>

definition Parse_fields :: "DigitalRadarData \<Rightarrow> byte istream \<Rightarrow> DigitalRadarData \<times> byte istream" where
  "Parse_fields p is0 =
     (let (ident, is1) = read_into (take 4 (radarIdentifier p @ replicate 4 0)) is0;
          (ctime, is2) = read_word 4 (collectionTime p) is1;
          (mjd, is3) = read_word 2 (modifiedJulianDate p) is2;
          (aznum, is4) = read_word 2 (azimuthNumber p) is3;
          (azang, is5) = read_word 4 (azimuthAngle p) is4;
          (comp, is6) = read_word 1 (compressionIndicator p) is5;
          is7 = seekg_cur 1 is6;
          (rlen, is8) = read_word 2 (radialLength p) is7;
          (azres, is9) = read_word 1 (azimuthResolutionSpacing p) is8;
          (rstat, is10) = read_word 1 (radialStatus p) is9;
          (elnum, is11) = read_word 1 (elevationNumber p) is10;
          (cut, is12) = read_word 1 (cutSectorNumber p) is11;
          (elang, is13) = read_word 4 (elevationAngle p) is12;
          (blank, is14) = read_word 1 (radialSpotBlankingStatus p) is13;
          (azidx, is15) = read_word 1 (azimuthIndexingMode p) is14;
          (count, is16) = read_word 2 (dataBlockCount p) is15
      in (p\<lparr>radarIdentifier := ident,
             collectionTime := ntohl ctime,
             modifiedJulianDate := ntohs mjd,
             azimuthNumber := ntohs aznum,
             azimuthAngle := SwapFloat azang,
             compressionIndicator := comp,
             radialLength := ntohs rlen,
             azimuthResolutionSpacing := azres,
             radialStatus := rstat,
             elevationNumber := elnum,
             cutSectorNumber := cut,
             elevationAngle := SwapFloat elang,
             radialSpotBlankingStatus := blank,
             azimuthIndexingMode := azidx,
             dataBlockCount := ntohs count\<rparr>, is16))"

text \<open>One turn of the loop over the data blocks, for the block pointer \<open>ptr\<close>.\<close>

definition Parse_block ::
  "int \<Rightarrow> 32 word \<Rightarrow> DigitalRadarData \<times> byte istream \<Rightarrow> DigitalRadarData \<times> byte istream" where
  "Parse_block isBegin ptr st =
     (case st of (p, is0) \<Rightarrow>
        (let is1 = seekg_beg (isBegin + uint ptr) is0;
             (dataBlockType, is2) = read_into (replicate 1 0) is1;
             (dataName, is3) = read_into (replicate 3 0) is2
         in case strToDataBlock dataName of
              Volume \<Rightarrow>
                (case VolumeDataBlock_Create dataBlockType dataName is3 of
                   (b, is4) \<Rightarrow> (p\<lparr>volumeDataBlock := Some b\<rparr>, is4))
            | Elevation \<Rightarrow>
                (case ElevationDataBlock_Create dataBlockType dataName is3 of
                   (b, is4) \<Rightarrow> (p\<lparr>elevationDataBlock := Some b\<rparr>, is4))
            | Radial \<Rightarrow>
                (case RadialDataBlock_Create dataBlockType dataName is3 of
                   (b, is4) \<Rightarrow> (p\<lparr>radialDataBlock := Some b\<rparr>, is4))
            | MomentRef \<Rightarrow>
                (case MomentDataBlock_Create dataBlockType dataName is3 of
                   (b, is4) \<Rightarrow> (p\<lparr>momentRefDataBlock := Some b\<rparr>, is4))
            | MomentVel \<Rightarrow>
                (case MomentDataBlock_Create dataBlockType dataName is3 of
                   (b, is4) \<Rightarrow> (p\<lparr>momentVelDataBlock := Some b\<rparr>, is4))
            | MomentSw \<Rightarrow>
                (case MomentDataBlock_Create dataBlockType dataName is3 of
                   (b, is4) \<Rightarrow> (p\<lparr>momentSwDataBlock := Some b\<rparr>, is4))
            | MomentZdr \<Rightarrow>
                (case MomentDataBlock_Create dataBlockType dataName is3 of
                   (b, is4) \<Rightarrow> (p\<lparr>momentZdrDataBlock := Some b\<rparr>, is4))
            | MomentPhi \<Rightarrow>
                (case MomentDataBlock_Create dataBlockType dataName is3 of
                   (b, is4) \<Rightarrow> (p\<lparr>momentPhiDataBlock := Some b\<rparr>, is4))
            | MomentRho \<Rightarrow>
                (case MomentDataBlock_Create dataBlockType dataName is3 of
                   (b, is4) \<Rightarrow> (p\<lparr>momentRhoDataBlock := Some b\<rparr>, is4))
            | MomentCfp \<Rightarrow>
                (case MomentDataBlock_Create dataBlockType dataName is3 of
                   (b, is4) \<Rightarrow> (p\<lparr>momentCfpDataBlock := Some b\<rparr>, is4))
            | Unknown \<Rightarrow> (p, is3)))"

text \<open>
  \<open>DigitalRadarData::Parse\<close>. \<open>Message::ValidateMessage\<close> belongs to the base class,
  which is not among the sources: it is the parameter \<open>validateMessage\<close>, called on the
  stream sought back to the start of the message with the count of bytes read (0).
  The result is the flag \<open>messageValid\<close>, the message and the stream.
\<close>

definition DigitalRadarData_Parse ::
  "(byte istream \<Rightarrow> nat \<Rightarrow> bool \<times> byte istream) \<Rightarrow> DigitalRadarData \<Rightarrow> byte istream
     \<Rightarrow> bool \<times> DigitalRadarData \<times> byte istream" where
  "DigitalRadarData_Parse validateMessage p0 is0 =
     (let (isBegin, is1) = tellg is0;
          (p1, is2) = Parse_fields p0 is1;
          countInvalid = (unat (dataBlockCount p1) < 4 \<or> 10 < unat (dataBlockCount p1));
          p2 = (if countInvalid then p1\<lparr>dataBlockCount := 0\<rparr> else p1);
          compressed = (compressionIndicator p2 \<noteq> 0);
          p3 = (if compressed then p2\<lparr>dataBlockCount := 0\<rparr> else p2);
          messageValid = (\<not> countInvalid \<and> \<not> compressed);
          n = unat (dataBlockCount p3);
          memory = concat (map (mem 4) (dataBlockPointer p3));
          (bytes, is3) = read_into (take (n * 4) memory) is2;
          p4 = p3\<lparr>dataBlockPointer :=
                    SwapArray (words32 (bytes @ drop (n * 4) memory)) n\<rparr>;
          (p5, is4) = fold (Parse_block isBegin) (take n (dataBlockPointer p4)) (p4, is3);
          is5 = seekg_beg isBegin is4;
          (valid, is6) = validateMessage is5 0
      in (messageValid \<and> valid, p5, is6))"

section \<open>AWIPS text products (text\_product\_message.cpp)\<close>

subsection \<open>Characters and lines\<close>

definition CR :: char where "CR = CHR 0x0D"
definition LF :: char where "LF = CHR 0x0A"
definition ETX :: char where "ETX = CHR 0x03"

text \<open>
  Modelled from the spec: \<open>util::getline\<close> (scwx/util/streams.hpp is not among the
  sources), the spec's \<open>get_line\<close> for text streams whose lines are CRLF-terminated. It
  clears the line, constructs the input sentry (so a stream that is not good gets
  \<open>failbit\<close>), and then, whatever the state of the stream, takes characters from the
  buffer up to a line end, which it consumes and does not store: a line feed, or a run of
  carriage returns with the line feed after it, if there is one. When the input ends
  before a line end, the line is what was left and \<open>eofbit\<close> is set. It never clears a
  state bit.

  \<open>scan_line\<close> gives the line, the number of characters consumed, and whether a line
  end was found.
\<close>

fun scan_line :: "string \<Rightarrow> string \<times> nat \<times> bool" where
  "scan_line [] = ([], 0, False)"
| "scan_line (c # cs) =
     (if c = LF then ([], 1, True)
      else if c = CR
      then (let crs = length (takeWhile (\<lambda>x. x = CR) cs);
                lf = (case drop crs cs of [] \<Rightarrow> 0 | d # ds \<Rightarrow> if d = LF then 1 else 0)
            in ([], 1 + crs + lf, True))
      else (case scan_line cs of (l, n, found) \<Rightarrow> (c # l, Suc n, found)))"

definition getline :: "char istream \<Rightarrow> string \<times> char istream" where
  "getline is =
     (case sentry is of (ok, is1) \<Rightarrow>
        (case scan_line (drop (rdpos is1) (buf is1)) of (line, n, found) \<Rightarrow>
           (line, is1\<lparr>rdpos := rdpos is1 + n, eofbit := eofbit is1 \<or> \<not> found\<rparr>)))"

subsection \<open>The keying patterns\<close>

text \<open>
  Each \<open>std::regex\<close> of the source is anchored at the start of the line and is used with
  \<open>regex_search\<close>, so it tests a prefix of the line.
\<close>

definition is_digit :: "char \<Rightarrow> bool" where
  "is_digit c = (48 \<le> (of_char c :: nat) \<and> (of_char c :: nat) \<le> 57)"

definition is_upper :: "char \<Rightarrow> bool" where
  "is_upper c = (65 \<le> (of_char c :: nat) \<and> (of_char c :: nat) \<le> 90)"

definition starts_with :: "string \<Rightarrow> string \<Rightarrow> bool" where
  "starts_with p s = (take (length p) s = p)"

text \<open>\<open>n\<close> characters of the class \<open>P\<close> at the start of \<open>s\<close>.\<close>

definition leading :: "nat \<Rightarrow> (char \<Rightarrow> bool) \<Rightarrow> string \<Rightarrow> bool" where
  "leading n P s = (n \<le> length s \<and> list_all P (take n s))"

text \<open>\<open>^[0-9]{3,4} ([AP]M|UTC)\<close>\<close>

definition reDateTimeString :: "string \<Rightarrow> bool" where
  "reDateTimeString s =
     (let meridiem = (\<lambda>t. starts_with '' AM'' t \<or> starts_with '' PM'' t \<or> starts_with '' UTC'' t)
      in (leading 4 is_digit s \<and> meridiem (drop 4 s)) \<or>
         (leading 3 is_digit s \<and> meridiem (drop 3 s)))"

text \<open>\<open>^[A-Z]{2}[CZ]([0-9]{3})?[->]\<close>\<close>

definition reUgcString :: "string \<Rightarrow> bool" where
  "reUgcString s =
     (let sep = (\<lambda>t. leading 1 (\<lambda>c. c = CHR ''-'' \<or> c = CHR ''>'') t)
      in leading 2 is_upper s \<and>
         leading 1 (\<lambda>c. c = CHR ''C'' \<or> c = CHR ''Z'') (drop 2 s) \<and>
         ((leading 3 is_digit (drop 3 s) \<and> sep (drop 6 s)) \<or> sep (drop 3 s)))"

text \<open>\<open>^/[OTEX]\.\<close>\<close>

definition rePVtecString :: "string \<Rightarrow> bool" where
  "rePVtecString s =
     (starts_with ''/'' s \<and>
      leading 1 (\<lambda>c. c = CHR ''O'' \<or> c = CHR ''T'' \<or> c = CHR ''E'' \<or> c = CHR ''X'') (drop 1 s) \<and>
      starts_with ''.'' (drop 2 s))"

text \<open>\<open>^/[A-Z0-9]{5}\.\<close>\<close>

definition reHVtecString :: "string \<Rightarrow> bool" where
  "reHVtecString s =
     (starts_with ''/'' s \<and>
      leading 5 (\<lambda>c. is_upper c \<or> is_digit c) (drop 1 s) \<and>
      starts_with ''.'' (drop 6 s))"

subsection \<open>The message\<close>

text \<open>
  \<open>PVtec\<close> (pvtec.hpp) is not among the sources: of a P-VTEC only the line handed to
  \<open>PVtec::Parse\<close> is kept.
\<close>

record Vtec =
  pVtec :: string
  hVtec :: string

record SegmentHeader =
  ugcString :: string
  vtecString :: "Vtec list"
  ugcNames :: "string list"
  issuanceDateTime :: string

record Segment =
  header :: "SegmentHeader option"
  productContent :: "string list"

record TextProductMessage =
  mndHeader :: "string list"
  segments :: "Segment list"

subsection \<open>Progress of the line reader\<close>

lemma scan_line_consumed:
  "snd (snd (scan_line cs)) \<or> fst (snd (scan_line cs)) = length cs"
  by (induction cs) (auto simp: Let_def split: prod.splits)

lemma scan_line_bound: "fst (snd (scan_line cs)) \<le> length cs"
proof (induction cs)
  case Nil
  then show ?case by simp
next
  case (Cons c cs)
  have "length (takeWhile (\<lambda>x. x = CR) cs) +
          (case drop (length (takeWhile (\<lambda>x. x = CR) cs)) cs of [] \<Rightarrow> 0
           | d # ds \<Rightarrow> if d = LF then 1 else 0) \<le> length cs"
  proof (cases "drop (length (takeWhile (\<lambda>x. x = CR) cs)) cs")
    case Nil
    then show ?thesis by (simp add: length_takeWhile_le)
  next
    case (Cons d ds)
    then have "length (takeWhile (\<lambda>x. x = CR) cs) < length cs"
      by (metis drop_eq_Nil2 list.distinct(1) not_le_imp_less)
    with Cons show ?thesis by simp
  qed
  with Cons show ?case by (auto simp: Let_def split: prod.splits)
qed

lemma scan_line_progress: "cs \<noteq> [] \<Longrightarrow> 0 < fst (snd (scan_line cs))"
  by (cases cs) (auto simp: Let_def split: prod.splits)

lemma getline_buf [simp]: "buf (snd (getline is)) = buf is"
  by (simp add: getline_def sentry_def split: prod.splits)

lemma getline_rdpos:
  "rdpos is < length (buf is) \<Longrightarrow>
     rdpos is < rdpos (snd (getline is)) \<and> rdpos (snd (getline is)) \<le> length (buf is)"
  using scan_line_bound [of "drop (rdpos is) (buf is)"]
    scan_line_progress [of "drop (rdpos is) (buf is)"]
  by (auto simp: getline_def sentry_def split: prod.splits)

lemma getline_at_end:
  "length (buf is) \<le> rdpos is \<Longrightarrow>
     eofbit (snd (getline is)) \<and> rdpos (snd (getline is)) = rdpos is"
  by (auto simp: getline_def sentry_def split: prod.splits)

lemma getline_mono: "rdpos is \<le> rdpos (snd (getline is))"
  by (auto simp: getline_def sentry_def split: prod.splits)

lemma peek_buf [simp]: "buf (snd (peek is)) = buf is"
  by (simp add: peek_def sentry_def split: prod.splits)

lemma peek_rdpos [simp]: "rdpos (snd (peek is)) = rdpos is"
  by (simp add: peek_def sentry_def split: prod.splits)

lemma peek_Some: "fst (peek is) = Some c \<Longrightarrow> rdpos is < length (buf is)"
  by (auto simp: peek_def sentry_def split: prod.splits if_splits)

text \<open>
  The measure of the loops that run while \<open>!is.eof()\<close> and read a line in each turn:
  the characters left, and one more while \<open>eofbit\<close> is clear.
\<close>

definition left :: "char istream \<Rightarrow> nat" where
  "left is = (length (buf is) - rdpos is) + (if eofbit is then 0 else 1)"

lemma getline_after_peek_left:
  "\<not> eofbit is \<Longrightarrow> left (snd (getline (snd (peek is)))) < left is"
proof (cases "rdpos is < length (buf is)")
  case True
  then have "rdpos (snd (peek is)) < length (buf (snd (peek is)))" by simp
  from getline_rdpos [OF this] True
  show "\<not> eofbit is \<Longrightarrow> ?thesis" by (auto simp: left_def)
next
  case False
  then have "length (buf (snd (peek is))) \<le> rdpos (snd (peek is))" by simp
  from getline_at_end [OF this] False
  show "\<not> eofbit is \<Longrightarrow> ?thesis" by (auto simp: left_def)
qed

subsection \<open>The parsers\<close>

lemma SkipBlankLines_decreases:
  assumes "(Some CR, is1) = peek is"
  shows "length (buf is1) - rdpos (snd (getline is1)) < length (buf is) - rdpos is"
proof -
  from assms have p: "fst (peek is) = Some CR" "is1 = snd (peek is)"
    by (metis fst_conv, metis snd_conv)
  from peek_Some [OF p(1)] have "rdpos is1 < length (buf is1)" using p(2) by simp
  from getline_rdpos [OF this] show ?thesis using p(2) by auto
qed

function SkipBlankLines :: "char istream \<Rightarrow> char istream" where
  "SkipBlankLines is =
     (case peek is of (c, is1) \<Rightarrow>
        if c = Some CR then SkipBlankLines (snd (getline is1)) else is1)"
  by pat_completeness auto
termination
  by (relation "measure (\<lambda>is. length (buf is) - rdpos is)")
    (simp_all add: SkipBlankLines_decreases)

declare SkipBlankLines.simps [simp del]

lemma read_line_decreases:
  assumes "\<not> eofbit is" and "(c, is1) = peek is" and "(line, is2) = getline is1"
  shows "left is2 < left is"
proof -
  from assms(2) have "is1 = snd (peek is)" by (metis snd_conv)
  moreover from assms(3) have "is2 = snd (getline is1)" by (metis snd_conv)
  ultimately show ?thesis using getline_after_peek_left [OF assms(1)] by simp
qed

text \<open>The reading loop of \<open>ParseProductContent\<close>, then the function.\<close>

function ParseProductContent_lines :: "char istream \<Rightarrow> string list \<Rightarrow> string list \<times> char istream" where
  "ParseProductContent_lines is content =
     (if eofbit is then (content, is)
      else (case peek is of (c, is1) \<Rightarrow>
        if c = Some ETX then (content, is1)
        else (case getline is1 of (line, is2) \<Rightarrow>
          if starts_with ''$$'' line then (content @ [line], is2)
          else ParseProductContent_lines is2 (content @ [line]))))"
  by pat_completeness auto
termination
  by (relation "measure (\<lambda>(is, content). left is)")
    (simp_all add: read_line_decreases)

declare ParseProductContent_lines.simps [simp del]

definition ParseProductContent :: "char istream \<Rightarrow> string list \<times> char istream" where
  "ParseProductContent is =
     (case ParseProductContent_lines is [] of (content, is1) \<Rightarrow>
        (rev (dropWhile (\<lambda>l. l = []) (rev content)), is1))"

definition TryParseEndOfProduct :: "char istream \<Rightarrow> bool \<times> char istream" where
  "TryParseEndOfProduct is0 =
     (let (isBegin, is1) = tellg is0;
          (c1, is2) = peek is1;
          (endOfStream1, is3) =
            (if c1 = Some ETX then (True, snd (get is2))
             else (case peek is2 of (c2, is2') \<Rightarrow>
                     if c2 = None then (True, is2') else (False, is2')));
          (endOfStream2, is4) =
            (if \<not> endOfStream1
             then (let (line, isa) = getline is3;
                       isb = SkipBlankLines isa;
                       (c3, isc) = peek isb
                   in if c3 = Some ETX then (True, snd (get isc))
                      else (case peek isc of (c4, isd) \<Rightarrow>
                              if c4 = None then (True, isd) else (False, isd)))
             else (endOfStream1, is3));
          is5 = (if \<not> endOfStream2 then seekg_beg isBegin is4 else is4)
      in (endOfStream2, is5))"

function TryParseMndHeader_lines :: "char istream \<Rightarrow> string list \<Rightarrow> string list \<times> char istream" where
  "TryParseMndHeader_lines is lines =
     (if eofbit is then (lines, is)
      else (case peek is of (c, is1) \<Rightarrow>
        if c = Some CR then (lines, is1)
        else (case getline is1 of (line, is2) \<Rightarrow>
          TryParseMndHeader_lines is2 (lines @ [line]))))"
  by pat_completeness auto
termination
  by (relation "measure (\<lambda>(is, lines). left is)")
    (simp_all add: read_line_decreases)

declare TryParseMndHeader_lines.simps [simp del]

definition TryParseMndHeader :: "char istream \<Rightarrow> string list \<times> char istream" where
  "TryParseMndHeader is0 =
     (let (isBegin, is1) = tellg is0;
          (lines, is2) = TryParseMndHeader_lines is1 [];
          mnd = (if lines \<noteq> [] \<and> \<not> reDateTimeString (last lines) then [] else lines);
          is3 = (if mnd = [] then seekg_beg isBegin is2 else is2)
      in (mnd, is3))"

definition TryParseVtecString :: "char istream \<Rightarrow> Vtec option \<times> char istream" where
  "TryParseVtecString is0 =
     (let (isBegin, is1) = tellg is0;
          (line, is2) = getline is1
      in if rePVtecString line
         then (let (isBegin2, is3) = tellg is2;
                   (line2, is4) = getline is3
               in if reHVtecString line2
                  then (Some \<lparr>pVtec = line, hVtec = line2\<rparr>, is4)
                  else (Some \<lparr>pVtec = line, hVtec = []\<rparr>, seekg_beg isBegin2 is4))
         else (None, seekg_beg isBegin is2))"

lemma tellg_same [simp]:
  "buf (snd (tellg is)) = buf is" "rdpos (snd (tellg is)) = rdpos is"
  by (simp_all add: tellg_def sentry_def split: prod.splits)

lemma tellg_value: "fst (tellg is) = - 1 \<and> failbit (snd (tellg is)) \<or> fst (tellg is) = int (rdpos is)"
  by (simp add: tellg_def sentry_def split: prod.splits)

lemma seekg_beg_buf [simp]: "buf (seekg_beg p is) = buf is"
  by (simp add: seekg_beg_def Let_def)

lemma seekg_beg_rdpos:
  "rdpos (seekg_beg p is) = rdpos is \<or>
   (0 \<le> p \<and> p \<le> int (length (buf is)) \<and> rdpos (seekg_beg p is) = nat p)"
  by (simp add: seekg_beg_def Let_def)

lemma getline_line: "fst (getline is) \<noteq> [] \<Longrightarrow> rdpos is < length (buf is)"
  by (cases "rdpos is < length (buf is)")
    (auto simp: getline_def sentry_def split: prod.splits if_splits)

lemma getline_le: "rdpos is \<le> length (buf is) \<Longrightarrow> rdpos (snd (getline is)) \<le> length (buf is)"
  using getline_rdpos [of "is"] getline_at_end [of "is"]
  by (cases "rdpos is < length (buf is)") auto

lemma rePVtecString_nonempty: "rePVtecString line \<Longrightarrow> line \<noteq> []"
  by (auto simp: rePVtecString_def starts_with_def)

lemma TryParseVtecString_progress:
  assumes "TryParseVtecString is = (Some v, is')"
  shows "buf is' = buf is \<and> rdpos is < rdpos is' \<and> rdpos is' \<le> length (buf is)"
proof -
  let ?is1 = "snd (tellg is)"
  let ?line = "fst (getline ?is1)"
  let ?is2 = "snd (getline ?is1)"
  let ?b2 = "fst (tellg ?is2)"
  let ?is3 = "snd (tellg ?is2)"
  let ?line2 = "fst (getline ?is3)"
  let ?is4 = "snd (getline ?is3)"
  from assms have m: "rePVtecString ?line"
    by (auto simp: TryParseVtecString_def Let_def split: prod.splits if_splits)
  from assms m have r: "is' = ?is4 \<or> is' = seekg_beg ?b2 ?is4"
    by (auto simp: TryParseVtecString_def Let_def split: prod.splits if_splits)
  from m have "?line \<noteq> []" by (rule rePVtecString_nonempty)
  then have "rdpos ?is1 < length (buf ?is1)" by (rule getline_line)
  from getline_rdpos [OF this]
  have p2: "rdpos is < rdpos ?is2" "rdpos ?is2 \<le> length (buf is)" by simp_all
  then have "rdpos ?is3 \<le> length (buf ?is3)" by simp
  from getline_le [OF this] getline_mono [of ?is3]
  have p4: "rdpos ?is2 \<le> rdpos ?is4" "rdpos ?is4 \<le> length (buf is)" by simp_all
  have b4: "buf ?is4 = buf is" by simp
  have "?b2 = - 1 \<and> failbit ?is3 \<or> ?b2 = int (rdpos ?is2)" by (rule tellg_value)
  then have s: "rdpos (seekg_beg ?b2 ?is4) = rdpos ?is4 \<or> rdpos (seekg_beg ?b2 ?is4) = rdpos ?is2"
    using seekg_beg_rdpos [of ?b2 ?is4] by auto
  from r show ?thesis
  proof
    assume "is' = ?is4"
    with p2 p4 b4 show ?thesis by simp
  next
    assume "is' = seekg_beg ?b2 ?is4"
    with p2 p4 s show ?thesis by auto
  qed
qed

lemma TryParseVtecString_decreases:
  assumes "(Some v, is') = TryParseVtecString is"
  shows "length (buf is') - rdpos is' < length (buf is) - rdpos is"
  using TryParseVtecString_progress [OF assms [symmetric]] by auto

text \<open>The two loops of \<open>TryParseSegmentHeader\<close>, then the function.\<close>

function TryParseSegmentHeader_vtecs :: "char istream \<Rightarrow> Vtec list \<Rightarrow> Vtec list \<times> char istream" where
  "TryParseSegmentHeader_vtecs is vtecs =
     (case TryParseVtecString is of
        (None, is1) \<Rightarrow> (vtecs, is1)
      | (Some vtec, is1) \<Rightarrow> TryParseSegmentHeader_vtecs is1 (vtecs @ [vtec]))"
  by pat_completeness auto
termination
  by (relation "measure (\<lambda>(is, vtecs). length (buf is) - rdpos is)")
    (simp_all add: TryParseVtecString_decreases)

declare TryParseSegmentHeader_vtecs.simps [simp del]

function TryParseSegmentHeader_names ::
  "char istream \<Rightarrow> string list \<Rightarrow> string list \<times> string \<times> char istream" where
  "TryParseSegmentHeader_names is names =
     (if eofbit is then (names, [], is)
      else (case peek is of (c, is1) \<Rightarrow>
        if c = Some CR then (names, [], is1)
        else (case getline is1 of (line, is2) \<Rightarrow>
          if \<not> reDateTimeString line
          then TryParseSegmentHeader_names is2 (names @ [line])
          else (names, line, is2))))"
  by pat_completeness auto
termination
  by (relation "measure (\<lambda>(is, names). left is)")
    (simp_all add: read_line_decreases)

declare TryParseSegmentHeader_names.simps [simp del]

definition TryParseSegmentHeader :: "char istream \<Rightarrow> SegmentHeader option \<times> char istream" where
  "TryParseSegmentHeader is0 =
     (let (isBegin, is1) = tellg is0;
          (line, is2) = getline is1
      in if reUgcString line
         then (let (vtecs, is3) = TryParseSegmentHeader_vtecs is2 [];
                   (names, issuance, is4) = TryParseSegmentHeader_names is3 []
               in (Some \<lparr>ugcString = line, vtecString = vtecs, ugcNames = names,
                          issuanceDateTime = issuance\<rparr>, is4))
         else (None, seekg_beg isBegin is2))"

text \<open>
  \<open>TextProductMessage::Parse\<close>. \<open>WmoHeader::Parse\<close> (wmo\_header.hpp) is not among the
  sources: it is the parameter \<open>wmoHeaderParse\<close>, which answers whether the header is
  valid and leaves the stream after it. The loop over the segments takes fuel, one unit
  for each turn; \<open>None\<close> says that the fuel did not suffice.
\<close>

fun Parse_segments ::
  "nat \<Rightarrow> nat \<Rightarrow> char istream \<Rightarrow> TextProductMessage \<Rightarrow> (TextProductMessage \<times> char istream) option" where
  "Parse_segments 0 i is msg = None"
| "Parse_segments (Suc fuel) i is0 msg =
     (if eofbit is0 then Some (msg, is0)
      else (let (endOfProduct, is1) = (if i \<noteq> 0 then TryParseEndOfProduct is0 else (False, is0))
            in if endOfProduct then Some (msg, is1)
               else (let (header1, msg1, is2) =
                           (if i = 0
                            then (let (c, isa) = peek is1;
                                      (h, isb) = (if c \<noteq> Some CR then TryParseSegmentHeader isa
                                                  else (None, isa));
                                      isc = SkipBlankLines isb;
                                      (mnd, isd) = TryParseMndHeader isc;
                                      ise = SkipBlankLines isd
                                  in (h, msg\<lparr>mndHeader := mnd\<rparr>, ise))
                            else (None, msg, is1));
                         (header2, is3) =
                           (if header1 = None
                            then (case TryParseSegmentHeader is2 of
                                    (h, isf) \<Rightarrow> (h, SkipBlankLines isf))
                            else (header1, is2));
                         (content, is4) = ParseProductContent is3;
                         is5 = SkipBlankLines is4;
                         msg2 = (if header2 \<noteq> None \<or> content \<noteq> []
                                 then msg1\<lparr>segments := segments msg1 @
                                        [\<lparr>header = header2, productContent = content\<rparr>]\<rparr>
                                 else msg1)
                     in Parse_segments fuel (Suc i) is5 msg2)))"

definition TextProductMessage_Parse ::
  "(char istream \<Rightarrow> bool \<times> char istream) \<Rightarrow> nat \<Rightarrow> char istream
     \<Rightarrow> (bool \<times> TextProductMessage \<times> char istream) option" where
  "TextProductMessage_Parse wmoHeaderParse fuel is0 =
     (case wmoHeaderParse is0 of (dataValid, is1) \<Rightarrow>
        if dataValid
        then (case Parse_segments fuel 0 is1 \<lparr>mndHeader = [], segments = []\<rparr> of
                None \<Rightarrow> None
              | Some (msg, is2) \<Rightarrow> Some (dataValid, msg, is2))
        else Some (dataValid, \<lparr>mndHeader = [], segments = []\<rparr>, is1))"

section \<open>Coordinate grids (RadarProductManager::Initialize)\<close>

text \<open>
  \<open>common::MAX_0_5_DEGREE_RADIALS\<close>, \<open>common::MAX_1_DEGREE_RADIALS\<close> and
  \<open>common::MAX_DATA_MOMENT_GATES\<close> come from scwx/common/constants.hpp, which is not
  among the sources: they are parameters.
\<close>

record constants =
  MAX_0_5_DEGREE_RADIALS :: nat
  MAX_1_DEGREE_RADIALS :: nat
  MAX_DATA_MOMENT_GATES :: nat

definition uint16 :: "nat \<Rightarrow> nat" where
  "uint16 n = n mod 2 ^ 16"

definition uint32 :: "nat \<Rightarrow> nat" where
  "uint32 n = n mod 2 ^ 32"

definition NUM_RADIAL_GATES_0_5_DEGREE :: "constants \<Rightarrow> nat" where
  "NUM_RADIAL_GATES_0_5_DEGREE c = uint32 (MAX_0_5_DEGREE_RADIALS c * MAX_DATA_MOMENT_GATES c)"

definition NUM_RADIAL_GATES_1_DEGREE :: "constants \<Rightarrow> nat" where
  "NUM_RADIAL_GATES_1_DEGREE c = uint32 (MAX_1_DEGREE_RADIALS c * MAX_DATA_MOMENT_GATES c)"

definition NUM_COORIDNATES_0_5_DEGREE :: "constants \<Rightarrow> nat" where
  "NUM_COORIDNATES_0_5_DEGREE c = uint32 (NUM_RADIAL_GATES_0_5_DEGREE c * 2)"

definition NUM_COORIDNATES_1_DEGREE :: "constants \<Rightarrow> nat" where
  "NUM_COORIDNATES_1_DEGREE c = uint32 (NUM_RADIAL_GATES_1_DEGREE c * 2)"

text \<open>
  Latitudes, longitudes, angles and ranges are real numbers. The source computes the
  angle and the range in single precision from a 16-bit radial and gate number; these
  products and differences (multiples of a quarter below \<open>2\<^sup>1\<^sup>6\<close>, whole numbers below
  \<open>2\<^sup>2\<^sup>4\<close>) are floats, so the real numbers are what it computes. The geodesic
  \<open>GeographicLib::Geodesic::Direct\<close> on the WGS-84 ellipsoid is a library function outside
  the repository: it is the parameter \<open>direct\<close>, from a latitude, a longitude, an azimuth
  and a distance to a latitude and a longitude. Its results are doubles, stored into an
  array of floats: the conversion is the parameter \<open>narrow\<close>.
\<close>

record RadarSite =
  site_type :: string
  site_latitude :: real
  site_longitude :: real

record RadarProductManager =
  initialized :: bool
  radarSite :: RadarSite
  coordinates0_5Degree :: "real list"
  coordinates1Degree :: "real list"

definition gate_size :: "RadarProductManager \<Rightarrow> real" where
  "gate_size p = (if site_type (radarSite p) = ''tdwr'' then 150 else 250)"

text \<open>\<open>std::vector::resize\<close>: new elements are zero.\<close>

definition resize :: "nat \<Rightarrow> real list \<Rightarrow> real list" where
  "resize n v = take n v @ replicate (n - length v) 0"

text \<open>
  The body of the loops, for one \<open>radialGate\<close>: \<open>degrees\<close> is the width of a radial
  (0.5 or 1) and \<open>half\<close> what is subtracted (0.25 or 0.5).
\<close>

definition calculate_coordinate ::
  "(real \<Rightarrow> real \<Rightarrow> real \<Rightarrow> real \<Rightarrow> real \<times> real) \<Rightarrow> (real \<Rightarrow> real) \<Rightarrow> constants \<Rightarrow>
     RadarProductManager \<Rightarrow> real \<Rightarrow> real \<Rightarrow> nat \<Rightarrow> real list \<Rightarrow> real list" where
  "calculate_coordinate direct narrow c p degrees half radialGate coordinates =
     (let gate = uint16 (radialGate mod MAX_DATA_MOMENT_GATES c);
          radial = uint16 (radialGate div MAX_DATA_MOMENT_GATES c);
          angle = real radial * degrees - half;
          range = real (gate + 1) * gate_size p;
          offset = uint32 (radialGate * 2);
          (latitude, longitude) =
            direct (site_latitude (radarSite p)) (site_longitude (radarSite p)) angle range
      in coordinates[offset := narrow latitude, offset + 1 := narrow longitude])"

text \<open>
  \<open>RadarProductManager::Initialize\<close>. The parallel \<open>for_each\<close> over the radial gates
  is the fold in ascending order; \<open>calculate_coordinate_any_order\<close> below shows that the
  order does not matter.
\<close>

definition Initialize ::
  "(real \<Rightarrow> real \<Rightarrow> real \<Rightarrow> real \<Rightarrow> real \<times> real) \<Rightarrow> (real \<Rightarrow> real) \<Rightarrow> constants \<Rightarrow>
     RadarProductManager \<Rightarrow> RadarProductManager" where
  "Initialize direct narrow c p =
     (if initialized p then p
      else (let half_degree =
                  fold (calculate_coordinate direct narrow c p 0.5 0.25)
                    [0 ..< NUM_RADIAL_GATES_0_5_DEGREE c]
                    (resize (NUM_COORIDNATES_0_5_DEGREE c) (coordinates0_5Degree p));
                one_degree =
                  fold (calculate_coordinate direct narrow c p 1 0.5)
                    [0 ..< NUM_RADIAL_GATES_1_DEGREE c]
                    (resize (NUM_COORIDNATES_1_DEGREE c) (coordinates1Degree p))
            in p\<lparr>coordinates0_5Degree := half_degree,
                 coordinates1Degree := one_degree,
                 initialized := True\<rparr>))"

section \<open>Example inputs\<close>

text \<open>A text stream at its start, and the line end \<open>"\r\r\n"\<close> of the spec's scenarios.\<close>

definition stream_of :: "string \<Rightarrow> char istream" where
  "stream_of s = \<lparr>buf = s, rdpos = 0, eofbit = False, failbit = False\<rparr>"

definition eol :: string where
  "eol = [CR, CR, LF]"

text \<open>The text product of the spec's scenario S3.\<close>

definition S3_text :: string where
  "S3_text =
     ''<WMO>'' @ eol @
     ''KSTL-'' @ eol @
     ''/O.NEW.KSTL.SV.W.0001.250101T0000Z-250101T0100Z/'' @ eol @
     ''1200 PM CST MON JAN 01 2025'' @ eol @
     ''BODY'' @ eol @
     ''$$'' @ eol @
     [ETX]"

text \<open>
  The stream over the S3 text where the WMO header parser leaves it, at the start of the
  line \<open>"KSTL-"\<close>, and the same stream at the start of the line \<open>"BODY"\<close>.
\<close>

definition S3_at_ugc :: "char istream" where
  "S3_at_ugc = \<lparr>buf = S3_text, rdpos = 8, eofbit = False, failbit = False\<rparr>"

definition S3_at_body :: "char istream" where
  "S3_at_body = \<lparr>buf = S3_text, rdpos = 97, eofbit = False, failbit = False\<rparr>"

text \<open>
  The S3 text after its WMO header with a UGC line that the keying pattern accepts and a
  blank line before the ETX.
\<close>

definition S3_with_ugc :: string where
  "S3_with_ugc =
     ''MOC189-'' @ eol @
     ''/O.NEW.KSTL.SV.W.0001.250101T0000Z-250101T0100Z/'' @ eol @
     ''1200 PM CST MON JAN 01 2025'' @ eol @
     ''BODY'' @ eol @
     ''$$'' @ eol @
     eol @
     [ETX]"

text \<open>
  A moment block \<open>"DREF"\<close> with 3 gates of 8 bits, the stream standing after the block
  type and the data name, where \<open>MomentDataBlock::Create\<close> starts.
\<close>

definition example_moment_block :: "byte istream" where
  "example_moment_block =
     \<lparr>buf = [0x44, 0x52, 0x45, 0x46, 0, 0, 0, 0, 0, 3, 0, 0, 0, 250, 0, 0, 0, 0, 0, 8,
             0, 0, 0, 0, 0, 0, 0, 0, 10, 20, 30],
      rdpos = 4, eofbit = False, failbit = False\<rparr>"

text \<open>
  The first 32 bytes of a message 31 from \<open>"KLSX"\<close> with \<open>compression_indicator = 1\<close>
  and \<open>data_block_count = 6\<close>.
\<close>

definition example_compressed_message :: "byte istream" where
  "example_compressed_message =
     \<lparr>buf = [0x4B, 0x4C, 0x53, 0x58, 0, 0, 0, 0, 0, 0, 0, 1, 0, 0, 0, 0,
             1, 0, 0, 0, 0, 0, 0, 0, 0, 0, 0, 0, 0, 0, 0, 6],
      rdpos = 0, eofbit = False, failbit = False\<rparr>"

text \<open>
  A stand-in for the geodesic with the range of the library's results, and a small grid:
  two half-degree radials, one full-degree radial, two gates.
\<close>

definition planar_direct :: "real \<Rightarrow> real \<Rightarrow> real \<Rightarrow> real \<Rightarrow> real \<times> real" where
  "planar_direct lat lon azi s =
     (max (- 90) (min 90 (lat + s / 1000)), max (- 180) (min 180 (lon + azi)))"

definition small_grid :: constants where
  "small_grid =
     \<lparr>MAX_0_5_DEGREE_RADIALS = 2, MAX_1_DEGREE_RADIALS = 1, MAX_DATA_MOMENT_GATES = 2\<rparr>"

definition example_manager :: RadarProductManager where
  "example_manager =
     \<lparr>initialized = False,
      radarSite = \<lparr>site_type = ''tdwr'', site_latitude = 10, site_longitude = 20\<rparr>,
      coordinates0_5Degree = [], coordinates1Degree = []\<rparr>"

section \<open>Refresh: interval, signal, enabling\<close>

lemma RefreshData_effects:
  "snd (RefreshData tpm pm pv) =
     Refresh # (if 0 < newObjects pv
                then [NewDataAvailable (group pm) (product pm) (latestTime pv)] else [])"
  by (simp add: RefreshData_def Let_def)

text \<open>
  C4. A completed refresh publishes \<open>NewDataAvailable(group, product, latest_time)\<close> exactly
  when it discovered new objects: the signals of one refresh are that single signal when
  \<open>new_objects > 0\<close>, and none when the refresh discovered zero new objects.
\<close>

theorem C4_signal_iff_new_objects:
  "filter is_signal (snd (RefreshData tpm pm pv)) =
     (if 0 < newObjects pv
      then [NewDataAvailable (group pm) (product pm) (latestTime pv)] else [])"
  by (simp add: RefreshData_effects)


theorem C4_signal_iff_new_objects_witness:
  "filter is_signal (snd (RefreshData 10000
      \<lparr>radarId = ''KLSX'', group = Level2, product = ''???'', refreshEnabled = True,
       refreshTimer = None\<rparr>
      \<lparr>newObjects = 0, totalObjects = 5, latestTime = 7, update_period = 3000000000,
       last_modified = 0, now = 100000000\<rparr>)) = [] \<and>
   filter is_signal (snd (RefreshData 10000
      \<lparr>radarId = ''KLSX'', group = Level2, product = ''???'', refreshEnabled = False,
       refreshTimer = None\<rparr>
      \<lparr>newObjects = 2, totalObjects = 5, latestTime = 7, update_period = 3000000000,
       last_modified = 0, now = 100000000\<rparr>)) = [NewDataAvailable Level2 ''???'' 7]"
  using C4_signal_iff_new_objects [of 10000
      "\<lparr>radarId = ''KLSX'', group = Level2, product = ''???'', refreshEnabled = True,
       refreshTimer = None\<rparr>"
      "\<lparr>newObjects = 0, totalObjects = 5, latestTime = 7, update_period = 3000000000,
       last_modified = 0, now = 100000000\<rparr>"]
    C4_signal_iff_new_objects [of 10000
      "\<lparr>radarId = ''KLSX'', group = Level2, product = ''???'', refreshEnabled = False,
       refreshTimer = None\<rparr>"
      "\<lparr>newObjects = 2, totalObjects = 5, latestTime = 7, update_period = 3000000000,
       last_modified = 0, now = 100000000\<rparr>"]
  by simp

text \<open>
  C3, as stated, fails: a refresh that finds no new object while the listing is not empty
  keeps refresh enabled and arms the timer with the retry interval of 15 seconds, whatever
  the update period. Here the update period is 300 s and the last modification 10 s old
  (ticks of 100 ns), so the claimed interval is 290 s; the timer is armed with 15 s.
\<close>

theorem C3_zero_new_counterexample:
  "refreshEnabled (fst (RefreshData 10000
      \<lparr>radarId = ''KLSX'', group = Level2, product = ''???'', refreshEnabled = True,
       refreshTimer = None\<rparr>
      \<lparr>newObjects = 0, totalObjects = 5, latestTime = 0, update_period = 3000000000,
       last_modified = 0, now = 100000000\<rparr>)) \<and>
   refreshTimer (fst (RefreshData 10000
      \<lparr>radarId = ''KLSX'', group = Level2, product = ''???'', refreshEnabled = True,
       refreshTimer = None\<rparr>
      \<lparr>newObjects = 0, totalObjects = 5, latestTime = 0, update_period = 3000000000,
       last_modified = 0, now = 100000000\<rparr>)) = Some 15000 \<and>
   max (duration_cast_ms 10000 (3000000000 - (100000000 - 0))) 15000 = 290000"
  by code_simp

text \<open>A difference of tick counts is the difference of the integers when that is in range.\<close>

lemma sint_diff_in_range:
  fixes a b :: ticks
  assumes "- (2 ^ 63) \<le> sint a - sint b" and "sint a - sint b < 2 ^ 63"
  shows "sint (a - b) = sint a - sint b"
  using assms by (simp add: sint_word_diff signed_take_bit_int_eq_self)

text \<open>
  The subtraction wraps around: with ticks of 1 ns, an update period of 100 s, a clock
  reading in the year 2023 and the least time point as the time of last modification,
  the elapsed time overflows and the timer is armed with some 238 years, where the
  integers give a negative difference and so 15 s.
\<close>

lemma RefreshData_interval_wraps:
  "refreshTimer (fst (RefreshData 1000000
      \<lparr>radarId = ''KLSX'', group = Level2, product = ''???'', refreshEnabled = True,
       refreshTimer = None\<rparr>
      \<lparr>newObjects = 1, totalObjects = 5, latestTime = 0, update_period = 100000000000,
       last_modified = - 9223372036854775808, now = 1700000000000000000\<rparr>)) =
     Some 7523372136854 \<and>
   max (trunc_div (100000000000 - (1700000000000000000 - (- 9223372036854775808))) 1000000)
       15000 = 15000"
  by code_simp

text \<open>
  C3, amended. Whenever a completed refresh leaves \<open>refresh_enabled\<close> true, the timer is
  armed. When the refresh discovered new objects, the armed interval in milliseconds is
  \<open>max(update_period - (now - last_modified), 15 s)\<close>, the difference taken in signed
  64-bit clock ticks and cast to whole milliseconds; it is the difference of the integers
  whenever neither subtraction leaves the 64-bit range. When the refresh discovered no new
  object, the armed interval is exactly 15 s.
\<close>

theorem C3_armed_interval:
  assumes "refreshEnabled (fst (RefreshData tpm pm pv))"
  shows "refreshTimer (fst (RefreshData tpm pm pv)) =
           Some (if 0 < newObjects pv
                 then max (duration_cast_ms tpm
                             (update_period pv - (now pv - last_modified pv))) 15000
                 else 15000) \<and>
         (0 < newObjects pv \<and>
          - (2 ^ 63) \<le> sint (now pv) - sint (last_modified pv) \<and>
          sint (now pv) - sint (last_modified pv) < 2 ^ 63 \<and>
          - (2 ^ 63) \<le> sint (update_period pv) - (sint (now pv) - sint (last_modified pv)) \<and>
          sint (update_period pv) - (sint (now pv) - sint (last_modified pv)) < 2 ^ 63 \<longrightarrow>
          refreshTimer (fst (RefreshData tpm pm pv)) =
            Some (max (trunc_div
                         (sint (update_period pv) - (sint (now pv) - sint (last_modified pv)))
                         tpm) 15000))"
proof (intro conjI impI)
  show t: "refreshTimer (fst (RefreshData tpm pm pv)) =
           Some (if 0 < newObjects pv
                 then max (duration_cast_ms tpm
                             (update_period pv - (now pv - last_modified pv))) 15000
                 else 15000)"
    using assms
    by (auto simp: RefreshData_def Let_def kRetryInterval_ms_def max_def split: if_splits)
  assume r: "0 < newObjects pv \<and>
          - (2 ^ 63) \<le> sint (now pv) - sint (last_modified pv) \<and>
          sint (now pv) - sint (last_modified pv) < 2 ^ 63 \<and>
          - (2 ^ 63) \<le> sint (update_period pv) - (sint (now pv) - sint (last_modified pv)) \<and>
          sint (update_period pv) - (sint (now pv) - sint (last_modified pv)) < 2 ^ 63"
  then have e: "sint (now pv - last_modified pv) = sint (now pv) - sint (last_modified pv)"
    by (intro sint_diff_in_range) simp_all
  with r have "sint (update_period pv - (now pv - last_modified pv)) =
               sint (update_period pv) - (sint (now pv) - sint (last_modified pv))"
    by (simp add: sint_diff_in_range)
  with t r show "refreshTimer (fst (RefreshData tpm pm pv)) =
            Some (max (trunc_div
                         (sint (update_period pv) - (sint (now pv) - sint (last_modified pv)))
                         tpm) 15000)"
    by (simp add: duration_cast_ms_def)
qed

theorem C3_armed_interval_witness:
  "refreshEnabled (fst (RefreshData 10000
      \<lparr>radarId = ''KLSX'', group = Level2, product = ''???'', refreshEnabled = True,
       refreshTimer = None\<rparr>
      \<lparr>newObjects = 2, totalObjects = 5, latestTime = 0, update_period = 3000000000,
       last_modified = 0, now = 100000000\<rparr>)) \<and>
   refreshTimer (fst (RefreshData 10000
      \<lparr>radarId = ''KLSX'', group = Level2, product = ''???'', refreshEnabled = True,
       refreshTimer = None\<rparr>
      \<lparr>newObjects = 2, totalObjects = 5, latestTime = 0, update_period = 3000000000,
       last_modified = 0, now = 100000000\<rparr>)) = Some 290000 \<and>
   max (trunc_div (3000000000 - (100000000 - 0)) 10000) 15000 = 290000"
proof -
  let ?pv = "\<lparr>newObjects = 2, totalObjects = 5, latestTime = 0, update_period = 3000000000,
       last_modified = 0, now = 100000000\<rparr> :: provider_view"
  let ?pm = "\<lparr>radarId = ''KLSX'', group = Level2, product = ''???'', refreshEnabled = True,
       refreshTimer = None\<rparr>"
  have en: "refreshEnabled (fst (RefreshData 10000 ?pm ?pv))"
    by (simp add: RefreshData_def Let_def)
  have rng: "0 < newObjects ?pv \<and>
          - (2 ^ 63) \<le> sint (now ?pv) - sint (last_modified ?pv) \<and>
          sint (now ?pv) - sint (last_modified ?pv) < 2 ^ 63 \<and>
          - (2 ^ 63) \<le> sint (update_period ?pv) - (sint (now ?pv) - sint (last_modified ?pv)) \<and>
          sint (update_period ?pv) - (sint (now ?pv) - sint (last_modified ?pv)) < 2 ^ 63"
    by simp
  have v: "sint (update_period ?pv) - (sint (now ?pv) - sint (last_modified ?pv)) = 2900000000"
    by simp
  have m: "max (trunc_div 2900000000 10000) 15000 = (290000 :: int)"
    by (simp add: trunc_div_def)
  from C3_armed_interval [OF en] rng
  have "refreshTimer (fst (RefreshData 10000 ?pm ?pv)) =
          Some (max (trunc_div
            (sint (update_period ?pv) - (sint (now ?pv) - sint (last_modified ?pv))) 10000) 15000)"
    by blast
  with en v m show ?thesis by simp
qed

text \<open>
  C5. \<open>refresh_enabled\<close> is false in a newly constructed provider manager (either
  constructor). If a refresh completes with \<open>(new, total) = (0, 0)\<close> while refresh is
  enabled, \<open>refresh_enabled\<close> becomes false and the timer is left unarmed; a later
  \<open>EnableRefresh(true)\<close> then calls the provider's refresh again: it is the refresh
  cycle entered with \<open>refresh_enabled\<close> set.
\<close>

theorem C5_zero_total_disables:
  "refreshEnabled (ProviderManager_new rid g prd) = False \<and>
   refreshEnabled (ProviderManager_new_group rid g) = False \<and>
   (refreshEnabled pm \<and> newObjects pv = 0 \<and> totalObjects pv = 0 \<longrightarrow>
      \<not> refreshEnabled (fst (RefreshData tpm pm pv)) \<and>
      refreshTimer (fst (RefreshData tpm pm pv)) = None \<and>
      Refresh \<in> set (snd (EnableRefresh tpm (fst (RefreshData tpm pm pv)) True pv')) \<and>
      EnableRefresh tpm (fst (RefreshData tpm pm pv)) True pv' =
        RefreshData tpm ((fst (RefreshData tpm pm pv))\<lparr>refreshEnabled := True\<rparr>) pv')"
  by (auto simp: ProviderManager_new_def ProviderManager_new_group_def RefreshData_def
      EnableRefresh_def Let_def)

theorem C5_zero_total_disables_witness:
  "refreshEnabled (ProviderManager_new ''KLSX'' Level3 ''N0B'') = False \<and>
   \<not> refreshEnabled (fst (RefreshData 10000
        ((ProviderManager_new ''KLSX'' Level3 ''N0B'')\<lparr>refreshEnabled := True\<rparr>)
        \<lparr>newObjects = 0, totalObjects = 0, latestTime = 0, update_period = 3000000000,
         last_modified = 0, now = 100000000\<rparr>)) \<and>
   refreshTimer (fst (RefreshData 10000
        ((ProviderManager_new ''KLSX'' Level3 ''N0B'')\<lparr>refreshEnabled := True\<rparr>)
        \<lparr>newObjects = 0, totalObjects = 0, latestTime = 0, update_period = 3000000000,
         last_modified = 0, now = 100000000\<rparr>)) = None \<and>
   Refresh \<in> set (snd (EnableRefresh 10000 (fst (RefreshData 10000
        ((ProviderManager_new ''KLSX'' Level3 ''N0B'')\<lparr>refreshEnabled := True\<rparr>)
        \<lparr>newObjects = 0, totalObjects = 0, latestTime = 0, update_period = 3000000000,
         last_modified = 0, now = 100000000\<rparr>)) True
        \<lparr>newObjects = 1, totalObjects = 1, latestTime = 5, update_period = 3000000000,
         last_modified = 0, now = 100000000\<rparr>))"
proof -
  have h: "refreshEnabled ((ProviderManager_new ''KLSX'' Level3 ''N0B'')\<lparr>refreshEnabled := True\<rparr>) \<and>
      newObjects \<lparr>newObjects = 0, totalObjects = 0, latestTime = 0, update_period = 3000000000,
         last_modified = 0, now = 100000000\<rparr> = 0 \<and>
      totalObjects \<lparr>newObjects = 0, totalObjects = 0, latestTime = 0, update_period = 3000000000,
         last_modified = 0, now = 100000000\<rparr> = 0"
    by simp
  show ?thesis
    using h C5_zero_total_disables [where rid = "''KLSX''" and g = Level3 and prd = "''N0B''"
      and pm = "(ProviderManager_new ''KLSX'' Level3 ''N0B'')\<lparr>refreshEnabled := True\<rparr>"
      and pv = "\<lparr>newObjects = 0, totalObjects = 0, latestTime = 0, update_period = 3000000000,
         last_modified = 0, now = 100000000\<rparr>" and tpm = 10000
      and pv' = "\<lparr>newObjects = 1, totalObjects = 1, latestTime = 5, update_period = 3000000000,
         last_modified = 0, now = 100000000\<rparr>"]
    by blast
qed


section \<open>Record cache: storing and looking up\<close>

lemma map_of_map_assign: "map_of (map_assign k v m) = (map_of m)(k \<mapsto> v)"
  by (induction m) (auto simp: fun_eq_iff)

lemma set_map_assign: "fst ` set (map_assign k v m) = insert k (fst ` set m)"
  by (simp add: dom_map_of_conv_image_fst [symmetric] map_of_map_assign)

lemma map_ok_map_assign: "map_ok m \<Longrightarrow> map_ok (map_assign k v m)"
  unfolding map_ok_def
proof (induction m)
  case Nil then show ?case by simp
next
  case (Cons a m)
  obtain k' v' where a: "a = (k', v')" by (cases a)
  from Cons have "sorted (map fst (map_assign k v m)) \<and> distinct (map fst (map_assign k v m))" by simp
  moreover note set_map_assign[of k v m]
  ultimately show ?case using Cons.prems a
    by (auto simp: less_le)
qed


text \<open>Storing keeps the Level-2 map in ascending key order without repeated keys.\<close>

lemma StoreRadarProductRecord_map_ok:
  "map_ok (level2ProductRecords st) \<Longrightarrow>
   map_ok (level2ProductRecords (fst (StoreRadarProductRecord tps st r)))"
  by (simp add: StoreRadarProductRecord_def Let_def map_ok_map_assign split: option.split)

text \<open>
  C6. Storage deduplicates by the record's time truncated to whole seconds. For a Level-2
  record the cache is the Level-2 map, for a Level-3 record the map of the record's
  product (empty when the product has none yet). If that map holds an entry at the
  truncated time, \<open>StoreRadarProductRecord\<close> returns the stored record and the caches are
  unchanged; otherwise it returns the record itself, the map now holds it at the truncated
  time, and every other entry and map is as before.
\<close>

theorem C6_store_deduplicates:
  "(radar_product_group r = Level2 \<longrightarrow>
      (case map_of (level2ProductRecords st) (time_point_cast_seconds tps (time r)) of
         Some old \<Rightarrow> StoreRadarProductRecord tps st r = (st, old)
       | None \<Rightarrow>
           snd (StoreRadarProductRecord tps st r) = r \<and>
           map_of (level2ProductRecords (fst (StoreRadarProductRecord tps st r))) =
             (map_of (level2ProductRecords st))(time_point_cast_seconds tps (time r) \<mapsto> r) \<and>
           level3ProductRecordsMap (fst (StoreRadarProductRecord tps st r)) =
             level3ProductRecordsMap st)) \<and>
   (radar_product_group r = Level3 \<longrightarrow>
      (case map_of (case level3ProductRecordsMap st (radar_product r) of None \<Rightarrow> [] | Some m \<Rightarrow> m)
                   (time_point_cast_seconds tps (time r)) of
         Some old \<Rightarrow> StoreRadarProductRecord tps st r = (st, old)
       | None \<Rightarrow>
           snd (StoreRadarProductRecord tps st r) = r \<and>
           level2ProductRecords (fst (StoreRadarProductRecord tps st r)) = level2ProductRecords st \<and>
           (\<exists>m'. level3ProductRecordsMap (fst (StoreRadarProductRecord tps st r)) (radar_product r) = Some m' \<and>
                 map_of m' =
                   (map_of (case level3ProductRecordsMap st (radar_product r) of None \<Rightarrow> [] | Some m \<Rightarrow> m))
                     (time_point_cast_seconds tps (time r) \<mapsto> r)) \<and>
           (\<forall>p. p \<noteq> radar_product r \<longrightarrow>
                 level3ProductRecordsMap (fst (StoreRadarProductRecord tps st r)) p =
                   level3ProductRecordsMap st p)))"
proof (intro conjI impI)
  assume "radar_product_group r = Level2"
  then show "case map_of (level2ProductRecords st) (time_point_cast_seconds tps (time r)) of
         Some old \<Rightarrow> StoreRadarProductRecord tps st r = (st, old)
       | None \<Rightarrow>
           snd (StoreRadarProductRecord tps st r) = r \<and>
           map_of (level2ProductRecords (fst (StoreRadarProductRecord tps st r))) =
             (map_of (level2ProductRecords st))(time_point_cast_seconds tps (time r) \<mapsto> r) \<and>
           level3ProductRecordsMap (fst (StoreRadarProductRecord tps st r)) =
             level3ProductRecordsMap st"
    by (simp add: StoreRadarProductRecord_def Let_def map_of_map_assign split: option.split)
next
  assume g: "radar_product_group r = Level3"
  show "case map_of (case level3ProductRecordsMap st (radar_product r) of None \<Rightarrow> [] | Some m \<Rightarrow> m)
                   (time_point_cast_seconds tps (time r)) of
         Some old \<Rightarrow> StoreRadarProductRecord tps st r = (st, old)
       | None \<Rightarrow>
           snd (StoreRadarProductRecord tps st r) = r \<and>
           level2ProductRecords (fst (StoreRadarProductRecord tps st r)) = level2ProductRecords st \<and>
           (\<exists>m'. level3ProductRecordsMap (fst (StoreRadarProductRecord tps st r)) (radar_product r) = Some m' \<and>
                 map_of m' =
                   (map_of (case level3ProductRecordsMap st (radar_product r) of None \<Rightarrow> [] | Some m \<Rightarrow> m))
                     (time_point_cast_seconds tps (time r) \<mapsto> r)) \<and>
           (\<forall>p. p \<noteq> radar_product r \<longrightarrow>
                 level3ProductRecordsMap (fst (StoreRadarProductRecord tps st r)) p =
                   level3ProductRecordsMap st p)"
  proof (cases "level3ProductRecordsMap st (radar_product r)")
    case None
    with g show ?thesis
      by (simp add: StoreRadarProductRecord_def Let_def map_of_map_assign)
  next
    case (Some m)
    then have triv: "(level3ProductRecordsMap st)(radar_product r \<mapsto> m) = level3ProductRecordsMap st"
      by (rule map_upd_triv)
    from g Some show ?thesis
      by (simp add: StoreRadarProductRecord_def Let_def map_of_map_assign triv split: option.split)
  qed
qed


theorem C6_store_deduplicates_witness:
  "StoreRadarProductRecord 10000000
      \<lparr>level2ProductRecords =
         [(150000000, \<lparr>time = 150000000, radar_product_group = Level2, radar_product = [],
                       radar_id = ''KLSX'', start_time = 150000000, nexrad_file = 1\<rparr>)],
       level3ProductRecordsMap = Map.empty\<rparr>
      \<lparr>time = 150000003, radar_product_group = Level2, radar_product = [],
       radar_id = ''KLSX'', start_time = 150000003, nexrad_file = 2\<rparr> =
    (\<lparr>level2ProductRecords =
         [(150000000, \<lparr>time = 150000000, radar_product_group = Level2, radar_product = [],
                       radar_id = ''KLSX'', start_time = 150000000, nexrad_file = 1\<rparr>)],
       level3ProductRecordsMap = Map.empty\<rparr>,
     \<lparr>time = 150000000, radar_product_group = Level2, radar_product = [],
       radar_id = ''KLSX'', start_time = 150000000, nexrad_file = 1\<rparr>)"
  using C6_store_deduplicates [where r =
      "\<lparr>time = 150000003, radar_product_group = Level2, radar_product = [],
       radar_id = ''KLSX'', start_time = 150000003, nexrad_file = 2\<rparr>" and st =
      "\<lparr>level2ProductRecords =
         [(150000000, \<lparr>time = 150000000, radar_product_group = Level2, radar_product = [],
                       radar_id = ''KLSX'', start_time = 150000000, nexrad_file = 1\<rparr>)],
       level3ProductRecordsMap = Map.empty\<rparr>" and tps = 10000000]
  by (simp add: time_point_cast_seconds_def trunc_div_def)

lemma sorted_le_last: "sorted (xs :: ('a :: linorder) list) \<Longrightarrow> x \<in> set xs \<Longrightarrow> x \<le> last xs"
  by (induction xs) (auto split: if_splits)

lemma bounded_greatest:
  assumes "sorted (map fst m)" and "filter (\<lambda>kv. fst kv \<le> t) m = kv # kvs"
  shows "last (kv # kvs) \<in> set m \<and> fst (last (kv # kvs)) \<le> t \<and>
         (\<forall>k' \<in> fst ` set m. k' \<le> t \<longrightarrow> k' \<le> fst (last (kv # kvs)))"
proof -
  let ?f = "filter (\<lambda>kv. fst kv \<le> t) m"
  have ne: "?f \<noteq> []" using assms(2) by simp
  then have mem: "last ?f \<in> set ?f" by (rule last_in_set)
  have srt: "sorted (map fst ?f)" using assms(1) by (rule sorted_filter)
  have mem': "last ?f \<in> set m \<and> fst (last ?f) \<le> t" using mem by simp
  have "\<forall>k' \<in> fst ` set m. k' \<le> t \<longrightarrow> k' \<le> fst (last ?f)"
  proof (intro ballI impI)
    fix k' assume "k' \<in> fst ` set m" "k' \<le> t"
    then have "k' \<in> set (map fst ?f)" by auto
    with srt have "k' \<le> last (map fst ?f)" by (rule sorted_le_last)
    then show "k' \<le> fst (last ?f)" using ne by (simp add: last_map)
  qed
  with mem' have "last ?f \<in> set m \<and> fst (last ?f) \<le> t \<and>
         (\<forall>k' \<in> fst ` set m. k' \<le> t \<longrightarrow> k' \<le> fst (last ?f))" by blast
  then show ?thesis unfolding assms(2) .
qed


text \<open>
  C10. With a non-empty Level-2 cache and the default-constructed time point, the lookup
  returns the record with the greatest cached time. For any other requested time it takes
  the record with the greatest key \<open>\<le>\<close> the time (null when there is none) and returns
  it, unless the start time of its Level-2 file is strictly after the requested time, when
  it returns null.
\<close>

theorem C10_level2_lookup:
  assumes "map_ok (level2ProductRecords st)"
  shows "(level2ProductRecords st \<noteq> [] \<and> t = 0 \<longrightarrow>
            (\<exists>k r. GetLevel2ProductRecord st t = Some r \<and> (k, r) \<in> set (level2ProductRecords st) \<and>
                   (\<forall>k' \<in> fst ` set (level2ProductRecords st). k' \<le> k))) \<and>
         (t \<noteq> 0 \<longrightarrow>
            (if \<exists>k' \<in> fst ` set (level2ProductRecords st). k' \<le> t
             then \<exists>k r. (k, r) \<in> set (level2ProductRecords st) \<and> k \<le> t \<and>
                        (\<forall>k' \<in> fst ` set (level2ProductRecords st). k' \<le> t \<longrightarrow> k' \<le> k) \<and>
                        GetLevel2ProductRecord st t = (if t < start_time r then None else Some r)
             else GetLevel2ProductRecord st t = None))"
proof (intro conjI impI)
  let ?m = "level2ProductRecords st"
  have srt: "sorted (map fst ?m)" using assms by (simp add: map_ok_def)
  {
    assume a: "?m \<noteq> [] \<and> t = 0"
    then have mem: "last ?m \<in> set ?m" by simp
    have "\<forall>k' \<in> fst ` set ?m. k' \<le> fst (last ?m)"
    proof
      fix k' assume "k' \<in> fst ` set ?m"
      then have "k' \<in> set (map fst ?m)" by simp
      with srt have "k' \<le> last (map fst ?m)" by (rule sorted_le_last)
      then show "k' \<le> fst (last ?m)" using a by (simp add: last_map)
    qed
    moreover have "GetLevel2ProductRecord st t = Some (snd (last ?m))"
      using a by (simp add: GetLevel2ProductRecord_def)
    moreover have "(fst (last ?m), snd (last ?m)) \<in> set ?m" using mem by simp
    ultimately show "\<exists>k r. GetLevel2ProductRecord st t = Some r \<and> (k, r) \<in> set ?m \<and>
                   (\<forall>k' \<in> fst ` set ?m. k' \<le> k)" by blast
  }
  {
    assume t: "t \<noteq> 0"
    show "if \<exists>k' \<in> fst ` set ?m. k' \<le> t
             then \<exists>k r. (k, r) \<in> set ?m \<and> k \<le> t \<and>
                        (\<forall>k' \<in> fst ` set ?m. k' \<le> t \<longrightarrow> k' \<le> k) \<and>
                        GetLevel2ProductRecord st t = (if t < start_time r then None else Some r)
             else GetLevel2ProductRecord st t = None"
    proof (cases "filter (\<lambda>kv. fst kv \<le> t) ?m")
      case Nil
      then have "\<not> (\<exists>k' \<in> fst ` set ?m. k' \<le> t)"
        by (auto simp: filter_empty_conv)
      moreover have "GetLevel2ProductRecord st t = None"
        using t Nil by (simp add: GetLevel2ProductRecord_def GetBoundedElementValue_def)
      ultimately show ?thesis by simp
    next
      case (Cons kv kvs)
      from bounded_greatest[OF srt Cons]
      have g: "last (kv # kvs) \<in> set ?m" "fst (last (kv # kvs)) \<le> t"
        "\<forall>k' \<in> fst ` set ?m. k' \<le> t \<longrightarrow> k' \<le> fst (last (kv # kvs))" by auto
      have ex: "\<exists>k' \<in> fst ` set ?m. k' \<le> t" using g(1,2) by force
      have r: "GetLevel2ProductRecord st t =
               (if t < start_time (snd (last (kv # kvs))) then None else Some (snd (last (kv # kvs))))"
        using t Cons by (simp add: GetLevel2ProductRecord_def GetBoundedElementValue_def)
      have "(fst (last (kv # kvs)), snd (last (kv # kvs))) \<in> set ?m" using g(1) by simp
      with g(2,3) r ex show ?thesis by (simp only: if_True) blast
    qed
  }
qed


theorem C10_level2_lookup_witness:
  "map_ok [(100, \<lparr>time = 100, radar_product_group = Level2, radar_product = [],
                  radar_id = ''KLSX'', start_time = 100, nexrad_file = 1\<rparr>),
           (200, \<lparr>time = 200, radar_product_group = Level2, radar_product = [],
                  radar_id = ''KLSX'', start_time = 200, nexrad_file = 2\<rparr>)] \<and>
   GetLevel2ProductRecord
     \<lparr>level2ProductRecords =
        [(100, \<lparr>time = 100, radar_product_group = Level2, radar_product = [],
                 radar_id = ''KLSX'', start_time = 100, nexrad_file = 1\<rparr>),
         (200, \<lparr>time = 200, radar_product_group = Level2, radar_product = [],
                 radar_id = ''KLSX'', start_time = 200, nexrad_file = 2\<rparr>)],
      level3ProductRecordsMap = Map.empty\<rparr> 150 =
     Some \<lparr>time = 100, radar_product_group = Level2, radar_product = [],
           radar_id = ''KLSX'', start_time = 100, nexrad_file = 1\<rparr>"
proof -
  have ok: "map_ok (level2ProductRecords
     \<lparr>level2ProductRecords =
        [(100, \<lparr>time = 100, radar_product_group = Level2, radar_product = [],
                 radar_id = ''KLSX'', start_time = 100, nexrad_file = 1\<rparr>),
         (200, \<lparr>time = 200, radar_product_group = Level2, radar_product = [],
                 radar_id = ''KLSX'', start_time = 200, nexrad_file = 2\<rparr>)],
      level3ProductRecordsMap = Map.empty\<rparr>)"
    by (simp add: map_ok_def)
  show ?thesis
    using ok C10_level2_lookup [OF ok, of 150]
    by (simp add: GetLevel2ProductRecord_def GetBoundedElementValue_def)
qed


section \<open>Message 31: header validation and moment gates\<close>

lemma read_good:
  "good is \<Longrightarrow> rdpos is + n \<le> length (buf is) \<Longrightarrow>
   read n is = (take n (drop (rdpos is) (buf is)), is\<lparr>rdpos := rdpos is + n\<rparr>)"
  by (simp add: read_def sentry_def Let_def)

lemma read_into_good:
  "good is \<Longrightarrow> rdpos is + length old \<le> length (buf is) \<Longrightarrow>
   read_into old is = (take (length old) (drop (rdpos is) (buf is)), is\<lparr>rdpos := rdpos is + length old\<rparr>)"
  by (simp add: read_into_def read_good)

lemma length_mem: "length (mem n v) = n"
  by (induction n arbitrary: v) simp_all

lemma read_word_good:
  "good is \<Longrightarrow> rdpos is + n \<le> length (buf is) \<Longrightarrow>
   read_word n old is = (le_word (take n (drop (rdpos is) (buf is))), is\<lparr>rdpos := rdpos is + n\<rparr>)"
  by (simp add: read_word_def read_into_good length_mem)

lemma seekg_cur_good:
  "good is \<Longrightarrow> rdpos is + n \<le> length (buf is) \<Longrightarrow>
   seekg_cur (int n) is = is\<lparr>rdpos := rdpos is + n\<rparr>"
  by (cases "is") (auto simp: seekg_cur_def seekg_beg_def good_def Let_def nat_add_distrib)

lemma good_rdpos: "good (is\<lparr>rdpos := k\<rparr>) = good is"
  by (simp add: good_def)

lemma ntohs_le_word: "ntohs (le_word [a, b]) = le_word [b, a]"
proof -
  have 1: "(ucast (ucast a OR push_bit 8 (ucast b :: 16 word) :: 16 word) :: byte) = a"
    by (rule bit_word_eqI) (auto simp: bit_simps dest: bit_imp_le_length)
  have 2: "(ucast (drop_bit 8 (ucast a OR push_bit 8 (ucast b :: 16 word) :: 16 word)) :: byte) = b"
    by (rule bit_word_eqI) (auto simp: bit_simps dest: bit_imp_le_length)
  show ?thesis
    using 1 2 by (simp add: ntohs_def numeral_2_eq_2)
qed

lemma take2_drop: "k + 2 \<le> length xs \<Longrightarrow> take 2 (drop k xs) = [xs ! k, xs ! Suc k]"
  by (simp add: numeral_2_eq_2 take_Suc_conv_app_nth)

lemma take1_drop: "k + 1 \<le> length xs \<Longrightarrow> take 1 (drop k xs) = [xs ! k]"
  by (simp add: take_Suc_conv_app_nth)

lemma Parse_fields_offsets:
  assumes g: "good is" and l: "rdpos is + 32 \<le> length (buf is)"
  shows "dataBlockCount (fst (Parse_fields p is)) =
           le_word [buf is ! (rdpos is + 31), buf is ! (rdpos is + 30)] \<and>
         compressionIndicator (fst (Parse_fields p is)) = buf is ! (rdpos is + 16)"
proof -
  define off where "off k = is\<lparr>rdpos := rdpos is + k\<rparr>" for k
  have at0: "is = off 0" by (simp add: off_def)
  have rw: "read_word n old (off k) = (le_word (take n (drop (rdpos is + k) (buf is))), off (k + n))"
    if "k + n \<le> 32" for k n and old :: "'b::len word"
    using that g l by (simp add: off_def read_word_good good_rdpos add.assoc)
  have ri: "read_into old (off k) = (take (length old) (drop (rdpos is + k) (buf is)), off (k + length old))"
    if "k + length old \<le> 32" for k old
    using that g l by (simp add: off_def read_into_good good_rdpos add.assoc)
  have sk: "seekg_cur 1 (off 17) = off 18"
    using g l seekg_cur_good[of "off 17" 1] by (simp add: off_def good_rdpos)
  have len4: "length (take 4 (radarIdentifier p @ replicate 4 (0::byte))) = 4" by simp
  have ri4: "read_into (take 4 (radarIdentifier p @ replicate 4 0)) (off 0) =
               (take 4 (drop (rdpos is + 0) (buf is)), off 4)"
    using ri[of 0 "take 4 (radarIdentifier p @ replicate 4 0)"] by (simp only: len4) simp
  have c: "dataBlockCount (fst (Parse_fields p (off 0))) =
             ntohs (le_word (take 2 (drop (rdpos is + 30) (buf is))))"
    by (simp add: Parse_fields_def ri4 rw sk Let_def del: le_word.simps take_append One_nat_def)
  have d: "compressionIndicator (fst (Parse_fields p (off 0))) =
             le_word (take 1 (drop (rdpos is + 16) (buf is)))"
    by (simp add: Parse_fields_def ri4 rw sk Let_def del: le_word.simps take_append One_nat_def)
  from l have "take 2 (drop (rdpos is + 30) (buf is)) = [buf is ! (rdpos is + 30), buf is ! Suc (rdpos is + 30)]"
    by (intro take2_drop) simp
  moreover have "Suc (rdpos is + 30) = rdpos is + 31" by simp
  moreover from l have "take 1 (drop (rdpos is + 16) (buf is)) = [buf is ! (rdpos is + 16)]"
    by (intro take1_drop) simp
  ultimately show ?thesis
    using c d by (simp add: at0 [symmetric] ntohs_le_word del: le_word.simps) simp
qed

lemma length_read: "length (fst (read n is)) \<le> n"
  by (auto simp: read_def sentry_def Let_def split: prod.splits)

lemma length_words16: "length (words16 bs) = length bs div 2"
  by (induction bs rule: words16.induct) simp_all

lemma fields_gates_empty:
  "MomentDataBlock_fields t nm is = (p0, ish) \<Longrightarrow> momentGates8 p0 = [] \<and> momentGates16 p0 = []"
  by (auto simp: MomentDataBlock_fields_def Let_def split: prod.splits)


text \<open>
  C1. For every input stream (and whatever the message held before): if the data block
  count, as read at offset 30 and byte-swapped, is below 4 or above 10, or the compression
  indicator read at offset 16 is not zero, \<open>DigitalRadarData::Parse\<close> returns false and
  the message's data block count is 0. By \<open>Parse_fields_offsets\<close> the two decoded
  fields are the bytes at offsets 30, 31 and 16 whenever the stream holds the 32 bytes.
\<close>

theorem C1_invalid_header_fails:
  assumes "unat (dataBlockCount (fst (Parse_fields p (snd (tellg is))))) < 4 \<or>
           10 < unat (dataBlockCount (fst (Parse_fields p (snd (tellg is))))) \<or>
           compressionIndicator (fst (Parse_fields p (snd (tellg is)))) \<noteq> 0"
  shows "\<not> fst (DigitalRadarData_Parse validateMessage p is) \<and>
         dataBlockCount (fst (snd (DigitalRadarData_Parse validateMessage p is))) = 0"
  using assms
  by (auto simp: DigitalRadarData_Parse_def Let_def split: prod.splits)

theorem C1_invalid_header_fails_witness:
  "compressionIndicator
     (fst (Parse_fields DigitalRadarDataImpl (snd (tellg example_compressed_message)))) \<noteq> 0 \<and>
   \<not> fst (DigitalRadarData_Parse (\<lambda>is n. (True, is)) DigitalRadarDataImpl example_compressed_message) \<and>
   dataBlockCount
     (fst (snd (DigitalRadarData_Parse (\<lambda>is n. (True, is)) DigitalRadarDataImpl example_compressed_message))) = 0"
proof -
  have h: "compressionIndicator
     (fst (Parse_fields DigitalRadarDataImpl (snd (tellg example_compressed_message)))) \<noteq> 0"
    by code_simp
  then have "unat (dataBlockCount (fst (Parse_fields DigitalRadarDataImpl
                 (snd (tellg example_compressed_message))))) < 4 \<or>
             10 < unat (dataBlockCount (fst (Parse_fields DigitalRadarDataImpl
                 (snd (tellg example_compressed_message))))) \<or>
             compressionIndicator (fst (Parse_fields DigitalRadarDataImpl
                 (snd (tellg example_compressed_message)))) \<noteq> 0"
    by blast
  from C1_invalid_header_fails [OF this, of "\<lambda>is n. (True, is)"] h
  show ?thesis by blast
qed

text \<open>
  C2. Let the fixed fields of a moment block be decoded and the number of gates be at most
  1840. With word size 8 the decoder issues one read of exactly \<open>n_gates\<close> bytes into the
  8-bit gate vector, which has \<open>n_gates\<close> elements, and the 16-bit vector stays empty;
  with word size 16 it issues one read of exactly \<open>n_gates \<times> 2\<close> bytes into the 16-bit
  gate vector, which has \<open>n_gates\<close> elements, and byte-swaps each element, and the 8-bit
  vector stays empty; when the stream holds the bytes, the read position advances by
  exactly that many and the vector holds them. With any other word size the stream is
  left as it is after the fixed fields and both gate vectors are empty.
\<close>

theorem C2_moment_gates:
  assumes f: "MomentDataBlock_fields t nm is = (p0, ish)"
    and n: "unat (numberOfDataMomentGates p0) \<le> 1840"
    and c: "MomentDataBlock_Create t nm is = (p, is')"
  shows "(dataWordSize p0 = 8 \<longrightarrow>
            is' = snd (read (unat (numberOfDataMomentGates p0)) ish) \<and>
            length (momentGates8 p) = unat (numberOfDataMomentGates p0) \<and>
            momentGates16 p = [] \<and>
            (good ish \<and> rdpos ish + unat (numberOfDataMomentGates p0) \<le> length (buf ish) \<longrightarrow>
               rdpos is' = rdpos ish + unat (numberOfDataMomentGates p0) \<and>
               momentGates8 p = take (unat (numberOfDataMomentGates p0)) (drop (rdpos ish) (buf ish)))) \<and>
         (dataWordSize p0 = 16 \<longrightarrow>
            is' = snd (read (unat (numberOfDataMomentGates p0) * 2) ish) \<and>
            length (momentGates16 p) = unat (numberOfDataMomentGates p0) \<and>
            momentGates8 p = [] \<and>
            (good ish \<and> rdpos ish + unat (numberOfDataMomentGates p0) * 2 \<le> length (buf ish) \<longrightarrow>
               rdpos is' = rdpos ish + unat (numberOfDataMomentGates p0) * 2 \<and>
               momentGates16 p =
                 map ntohs (words16 (take (unat (numberOfDataMomentGates p0) * 2)
                                      (drop (rdpos ish) (buf ish)))))) \<and>
         (dataWordSize p0 \<noteq> 8 \<and> dataWordSize p0 \<noteq> 16 \<longrightarrow>
            is' = ish \<and> momentGates8 p = [] \<and> momentGates16 p = [])"
proof -
  note e = fields_gates_empty[OF f]
  have g: "MomentDataBlock_gates p0 ish = (p, is')"
    using f c by (simp add: MomentDataBlock_Create_def)
  let ?n = "unat (numberOfDataMomentGates p0)"
  have len: "\<And>k. length (fst (read k ish)) \<le> k" by (rule length_read)
  show ?thesis
  proof (intro conjI impI)
    assume w: "dataWordSize p0 = 8"
    from g n w show "is' = snd (read ?n ish)"
      by (auto simp: MomentDataBlock_gates_def read_into_def split: prod.splits)
    from g n w len[of ?n] show "length (momentGates8 p) = ?n"
      by (auto simp: MomentDataBlock_gates_def read_into_def split: prod.splits)
    from g n w e show "momentGates16 p = []"
      by (auto simp: MomentDataBlock_gates_def read_into_def split: prod.splits)
  next
    assume w: "dataWordSize p0 = 8"
       and a: "good ish \<and> rdpos ish + ?n \<le> length (buf ish)"
    from g n w a show "rdpos is' = rdpos ish + ?n"
      by (auto simp: MomentDataBlock_gates_def read_into_good)
    from g n w a show "momentGates8 p = take ?n (drop (rdpos ish) (buf ish))"
      by (auto simp: MomentDataBlock_gates_def read_into_good)
  next
    assume w: "dataWordSize p0 = 16"
    from g n w show "is' = snd (read (?n * 2) ish)"
      by (auto simp: MomentDataBlock_gates_def read_into_def split: prod.splits)
    from g n w len[of "?n * 2"] show "length (momentGates16 p) = ?n"
      by (auto simp: MomentDataBlock_gates_def read_into_def SwapVector_def length_words16 split: prod.splits)
    from g n w e show "momentGates8 p = []"
      by (auto simp: MomentDataBlock_gates_def read_into_def split: prod.splits)
  next
    assume w: "dataWordSize p0 = 16"
       and a: "good ish \<and> rdpos ish + ?n * 2 \<le> length (buf ish)"
    from g n w a show "rdpos is' = rdpos ish + ?n * 2"
      by (auto simp: MomentDataBlock_gates_def read_into_good)
    from g n w a show "momentGates16 p = map ntohs (words16 (take (?n * 2) (drop (rdpos ish) (buf ish))))"
      by (auto simp: MomentDataBlock_gates_def read_into_good SwapVector_def)
  next
    assume w: "dataWordSize p0 \<noteq> 8 \<and> dataWordSize p0 \<noteq> 16"
    from g n w show "is' = ish" by (auto simp: MomentDataBlock_gates_def)
    from g n w e show "momentGates8 p = []" by (auto simp: MomentDataBlock_gates_def)
    from g n w e show "momentGates16 p = []" by (auto simp: MomentDataBlock_gates_def)
  qed
qed


theorem C2_moment_gates_witness:
  "unat (numberOfDataMomentGates
      (fst (MomentDataBlock_fields [0x44] (bytes_of ''REF'') example_moment_block))) = 3 \<and>
   dataWordSize (fst (MomentDataBlock_fields [0x44] (bytes_of ''REF'') example_moment_block)) = 8 \<and>
   rdpos (snd (MomentDataBlock_fields [0x44] (bytes_of ''REF'') example_moment_block)) = 28 \<and>
   rdpos (snd (MomentDataBlock_Create [0x44] (bytes_of ''REF'') example_moment_block)) = 31 \<and>
   momentGates8 (fst (MomentDataBlock_Create [0x44] (bytes_of ''REF'') example_moment_block)) =
     [10, 20, 30] \<and>
   momentGates16 (fst (MomentDataBlock_Create [0x44] (bytes_of ''REF'') example_moment_block)) = []"
proof -
  let ?f = "MomentDataBlock_fields [0x44] (bytes_of ''REF'') example_moment_block"
  let ?c = "MomentDataBlock_Create [0x44] (bytes_of ''REF'') example_moment_block"
  have f: "?f = (fst ?f, snd ?f)" by simp
  have c: "?c = (fst ?c, snd ?c)" by simp
  have n3: "unat (numberOfDataMomentGates (fst ?f)) = 3" by code_simp
  then have n: "unat (numberOfDataMomentGates (fst ?f)) \<le> 1840" by simp
  have w: "dataWordSize (fst ?f) = 8" by code_simp
  have g: "good (snd ?f)" by code_simp
  have r: "rdpos (snd ?f) = 28" by code_simp
  have l: "length (buf (snd ?f)) = 31" by code_simp
  have t: "take 3 (drop 28 (buf (snd ?f))) = [10, 20, 30]" by code_simp
  from g r l n3 have a: "good (snd ?f) \<and>
      rdpos (snd ?f) + unat (numberOfDataMomentGates (fst ?f)) \<le> length (buf (snd ?f))"
    by simp
  from C2_moment_gates [OF f n c] w a
  have "rdpos (snd ?c) = rdpos (snd ?f) + unat (numberOfDataMomentGates (fst ?f)) \<and>
        momentGates8 (fst ?c) =
          take (unat (numberOfDataMomentGates (fst ?f))) (drop (rdpos (snd ?f)) (buf (snd ?f))) \<and>
        momentGates16 (fst ?c) = []"
    by blast
  with n3 w r t show ?thesis by simp
qed



section \<open>Text products: scenario S3 and rewinding\<close>

text \<open>
  A segment header is only ever built from a line that the UGC keying pattern accepts.
\<close>

lemma TryParseSegmentHeader_ugc:
  assumes "fst (TryParseSegmentHeader is) = Some h"
  shows "reUgcString (ugcString h)"
  using assms
  by (auto simp: TryParseSegmentHeader_def Let_def split_def split: if_splits)

lemma TryParseSegmentHeader_keyed:
  "case fst (TryParseSegmentHeader is) of None \<Rightarrow> True | Some h \<Rightarrow> reUgcString (ugcString h)"
  by (simp add: TryParseSegmentHeader_ugc split: option.splits)

lemma Parse_segments_keyed:
  "list_all (\<lambda>s. case header s of None \<Rightarrow> True | Some h \<Rightarrow> reUgcString (ugcString h))
     (segments msg) \<Longrightarrow>
   Parse_segments fuel i is msg = Some (msg', is') \<Longrightarrow>
   list_all (\<lambda>s. case header s of None \<Rightarrow> True | Some h \<Rightarrow> reUgcString (ugcString h))
     (segments msg')"
proof (induction fuel arbitrary: i "is" msg)
  case 0
  then show ?case by simp
next
  case (Suc fuel)
  show ?case
  proof (cases "eofbit is \<or> fst (if i \<noteq> 0 then TryParseEndOfProduct is else (False, is))")
    case True
    with Suc.prems show ?thesis by (auto simp: split_def Let_def split: if_splits)
  next
    case False
    with Suc.prems show ?thesis
      apply (simp add: split_def Let_def TryParseSegmentHeader_ugc split: if_splits)
         apply (erule Suc.IH [rotated],
           simp add: TryParseSegmentHeader_ugc TryParseSegmentHeader_keyed)+
      done
  qed
qed

lemma TextProductMessage_Parse_keyed:
  assumes "TextProductMessage_Parse wmoHeaderParse fuel is = Some (valid, msg, is')"
    and "s \<in> set (segments msg)" and "header s = Some h"
  shows "reUgcString (ugcString h)"
proof -
  have "list_all (\<lambda>s. case header s of None \<Rightarrow> True | Some h \<Rightarrow> reUgcString (ugcString h))
     (segments msg)"
  proof (cases "fst (wmoHeaderParse is)")
    case True
    with assms(1) obtain r where
      "Parse_segments fuel 0 (snd (wmoHeaderParse is)) \<lparr>mndHeader = [], segments = []\<rparr> =
         Some (msg, r)"
      by (auto simp: TextProductMessage_Parse_def split_def split: option.splits)
    from Parse_segments_keyed [OF _ this] show ?thesis by simp
  next
    case False
    with assms(1) show ?thesis
      by (auto simp: TextProductMessage_Parse_def split_def)
  qed
  with assms(2,3) show ?thesis by (auto simp: list_all_iff)
qed

text \<open>
  C7, as stated, fails on the S3 text: the UGC keying pattern wants \<open>C\<close> or \<open>Z\<close> as the
  third character, so \<open>"KSTL-"\<close> is not a UGC line and the segment header parser, started
  at that line, finds no header; and the product content read from the line \<open>"BODY"\<close> is
  not \<open>["BODY"]\<close>.
\<close>

theorem C7_S3_counterexample:
  "\<not> reUgcString ''KSTL-'' \<and>
   take 5 (drop (rdpos S3_at_ugc) (buf S3_at_ugc)) = ''KSTL-'' \<and>
   fst (TryParseSegmentHeader S3_at_ugc) = None \<and>
   take 4 (drop (rdpos S3_at_body) (buf S3_at_body)) = ''BODY'' \<and>
   fst (ParseProductContent S3_at_body) \<noteq> [''BODY'']"
  by code_simp

text \<open>
  C7, amended. Whatever the WMO header parser does and whatever the stream holds, every
  segment header that \<open>Parse\<close> produces carries a UGC string that the keying pattern
  \<open>^[A-Z]{2}[CZ]([0-9]{3})?[->]\<close> accepts. The line \<open>"KSTL-"\<close> of S3 is not accepted: the
  segment header parser started at that line returns no header and rewinds the stream to
  the start of the line. The product content read from the line \<open>"BODY"\<close> of S3 is
  \<open>["BODY", "$$"]\<close>: the \<open>$$\<close> line ends the content and is its last line.
\<close>

theorem C7_S3_header_and_content:
  "(\<forall>wmoHeaderParse fuel is valid msg is'.
      TextProductMessage_Parse wmoHeaderParse fuel is = Some (valid, msg, is') \<longrightarrow>
      (\<forall>s \<in> set (segments msg). \<forall>h. header s = Some h \<longrightarrow> reUgcString (ugcString h))) \<and>
   \<not> reUgcString ''KSTL-'' \<and>
   TryParseSegmentHeader S3_at_ugc = (None, S3_at_ugc) \<and>
   fst (ParseProductContent S3_at_body) = [''BODY'', ''$$'']"
proof (intro conjI)
  show "\<forall>wmoHeaderParse fuel is valid msg is'.
      TextProductMessage_Parse wmoHeaderParse fuel is = Some (valid, msg, is') \<longrightarrow>
      (\<forall>s \<in> set (segments msg). \<forall>h. header s = Some h \<longrightarrow> reUgcString (ugcString h))"
    using TextProductMessage_Parse_keyed by blast
  show "\<not> reUgcString ''KSTL-''" by code_simp
  show "TryParseSegmentHeader S3_at_ugc = (None, S3_at_ugc)" by code_simp
  show "fst (ParseProductContent S3_at_body) = [''BODY'', ''$$'']" by code_simp
qed

text \<open>
  With \<open>"MOC189-"\<close> in place of \<open>"KSTL-"\<close> the text after the WMO header parses to one
  segment with a header, whose UGC string the pattern accepts.
\<close>

theorem C7_S3_header_and_content_witness:
  "TextProductMessage_Parse (\<lambda>is. (True, is)) 5 (stream_of S3_with_ugc) =
     Some (True,
       \<lparr>mndHeader = [],
        segments =
          [\<lparr>header =
              Some \<lparr>ugcString = ''MOC189-'',
                    vtecString =
                      [\<lparr>pVtec = ''/O.NEW.KSTL.SV.W.0001.250101T0000Z-250101T0100Z/'',
                        hVtec = []\<rparr>],
                    ugcNames = [],
                    issuanceDateTime = ''1200 PM CST MON JAN 01 2025''\<rparr>,
            productContent = [''BODY'', ''$$'']\<rparr>]\<rparr>,
       \<lparr>buf = S3_with_ugc, rdpos = 107, eofbit = False, failbit = False\<rparr>) \<and>
   reUgcString ''MOC189-'' \<and>
   \<not> reUgcString ''KSTL-''"
proof -
  let ?h = "\<lparr>ugcString = ''MOC189-'',
             vtecString =
               [\<lparr>pVtec = ''/O.NEW.KSTL.SV.W.0001.250101T0000Z-250101T0100Z/'', hVtec = []\<rparr>],
             ugcNames = [],
             issuanceDateTime = ''1200 PM CST MON JAN 01 2025''\<rparr>"
  let ?s = "\<lparr>header = Some ?h, productContent = [''BODY'', ''$$'']\<rparr>"
  let ?msg = "\<lparr>mndHeader = [], segments = [?s]\<rparr>"
  let ?is = "\<lparr>buf = S3_with_ugc, rdpos = 107, eofbit = False, failbit = False\<rparr>"
  have p: "TextProductMessage_Parse (\<lambda>is. (True, is)) 5 (stream_of S3_with_ugc) =
      Some (True, ?msg, ?is)"
    by code_simp
  have "?s \<in> set (segments ?msg)" "header ?s = Some ?h" by simp_all
  with C7_S3_header_and_content p have "reUgcString (ugcString ?h)" by blast
  moreover from C7_S3_header_and_content have "\<not> reUgcString ''KSTL-''" by blast
  ultimately show ?thesis using p by simp
qed
subsection \<open>Rewinding on a miss\<close>

lemma seekg_beg_ok:
  "\<not> failbit is \<Longrightarrow> p \<le> length (buf is) \<Longrightarrow> rdpos (seekg_beg (int p) is) = p"
  by (simp add: seekg_beg_def Let_def)

lemma tellg_good: "good is \<Longrightarrow> tellg is = (int (rdpos is), is)"
  by (simp add: tellg_def sentry_def)

lemma getline_failbit: "good is \<Longrightarrow> \<not> failbit (snd (getline is))"
  by (simp add: getline_def sentry_def good_def split: prod.splits)

lemma TryParseVtecString_rewinds:
  assumes g: "good is" and l: "rdpos is \<le> length (buf is)"
    and n: "fst (TryParseVtecString is) = None"
  shows "rdpos (snd (TryParseVtecString is)) = rdpos is"
proof -
  obtain line is2 where gl: "getline is = (line, is2)" by force
  have "\<not> rePVtecString line"
  proof
    assume "rePVtecString line"
    with gl have "fst (TryParseVtecString is) \<noteq> None"
      by (simp add: TryParseVtecString_def tellg_good [OF g] Let_def split: prod.splits)
    with n show False by simp
  qed
  with gl have "snd (TryParseVtecString is) = seekg_beg (int (rdpos is)) (snd (getline is))"
    by (simp add: TryParseVtecString_def tellg_good [OF g] Let_def)
  with seekg_beg_ok [OF getline_failbit [OF g], of "rdpos is"] l show ?thesis by simp
qed

lemma TryParseSegmentHeader_rewinds:
  assumes g: "good is" and l: "rdpos is \<le> length (buf is)"
    and n: "fst (TryParseSegmentHeader is) = None"
  shows "rdpos (snd (TryParseSegmentHeader is)) = rdpos is"
proof -
  obtain line is2 where gl: "getline is = (line, is2)" by force
  have "\<not> reUgcString line"
  proof
    assume "reUgcString line"
    with gl have "fst (TryParseSegmentHeader is) \<noteq> None"
      by (simp add: TryParseSegmentHeader_def tellg_good [OF g] Let_def split: prod.splits)
    with n show False by simp
  qed
  with gl have "snd (TryParseSegmentHeader is) = seekg_beg (int (rdpos is)) (snd (getline is))"
    by (simp add: TryParseSegmentHeader_def tellg_good [OF g] Let_def)
  with seekg_beg_ok [OF getline_failbit [OF g], of "rdpos is"] l show ?thesis by simp
qed

lemma SkipBlankLines_buf [simp]: "buf (SkipBlankLines is) = buf is"
proof (induction "is" rule: SkipBlankLines.induct)
  case (1 "is")
  obtain c is1 where p: "peek is = (c, is1)" by force
  then have b: "buf is1 = buf is" by (metis peek_buf snd_conv)
  show ?case
  proof (cases "c = Some CR")
    case True
    with 1 p have "buf (SkipBlankLines (snd (getline is1))) = buf (snd (getline is1))"
      by simp
    with p True b show ?thesis
      by (subst SkipBlankLines.simps) simp
  next
    case False
    with p b show ?thesis
      by (subst SkipBlankLines.simps) simp
  qed
qed

lemma peek_Some_good:
  "fst (peek is) = Some c \<Longrightarrow> good is \<and> snd (peek is) = is \<and> rdpos is < length (buf is)"
  by (auto simp: peek_def sentry_def split: prod.splits if_splits)

lemma peek_not_good: "\<not> good is \<Longrightarrow> fst (peek is) = None \<and> \<not> good (snd (peek is))"
  by (simp add: peek_def sentry_def good_def)

lemma tellg_not_good: "\<not> good is \<Longrightarrow> \<not> good (snd (tellg is))"
  by (simp add: tellg_def sentry_def good_def)

lemma TryParseEndOfProduct_rewinds:
  assumes "\<not> fst (TryParseEndOfProduct is)"
  shows "rdpos (snd (TryParseEndOfProduct is)) = rdpos is"
proof -
  let ?is1 = "snd (tellg is)"
  let ?is2 = "snd (peek ?is1)"
  let ?is2' = "snd (peek ?is2)"
  let ?isa = "snd (getline ?is2')"
  let ?isb = "SkipBlankLines ?isa"
  let ?isc = "snd (peek ?isb)"
  let ?isd = "snd (peek ?isc)"
  have e: "TryParseEndOfProduct is =
      (let e1 = (fst (peek ?is1) = Some ETX \<or> fst (peek ?is2) = None);
           is3 = (if fst (peek ?is1) = Some ETX then snd (get ?is2) else ?is2');
           e2 = (if \<not> e1 then fst (peek ?isb) = Some ETX \<or> fst (peek ?isc) = None else e1);
           is4 = (if \<not> e1 then (if fst (peek ?isb) = Some ETX then snd (get ?isc) else ?isd) else is3)
       in (e2, if \<not> e2 then seekg_beg (fst (tellg is)) is4 else is4))"
    by (simp add: TryParseEndOfProduct_def Let_def split_def)
  from assms have c: "fst (peek ?is1) \<noteq> Some ETX" "fst (peek ?is2) \<noteq> None"
    "fst (peek ?isb) \<noteq> Some ETX" "fst (peek ?isc) \<noteq> None"
    unfolding e by (auto simp: Let_def split: if_splits)
  then have r: "snd (TryParseEndOfProduct is) = seekg_beg (fst (tellg is)) ?isd"
    unfolding e by (simp add: Let_def)
  from c(2) obtain x where x: "fst (peek ?is2) = Some x" by auto
  from peek_Some_good [OF x] have g2: "good ?is2" and l2: "rdpos ?is2 < length (buf ?is2)" by simp_all
  have g1: "good ?is1"
    using peek_not_good [of ?is1] g2 by blast
  have g0: "good is"
    using tellg_not_good [of "is"] g1 by blast
  from tellg_good [OF g0] have t: "fst (tellg is) = int (rdpos is)" by simp
  from l2 have l: "rdpos is \<le> length (buf is)" by simp
  from c(4) obtain y where "fst (peek ?isc) = Some y" by auto
  from peek_Some_good [OF this] have gd: "\<not> failbit ?isd" by (simp add: good_def)
  have b: "buf ?isd = buf is" by simp
  from seekg_beg_ok [OF gd, of "rdpos is"] l b r t show ?thesis by simp
qed


text \<open>
  C8 at a failing input: the stream holds the one line \<open>"ABC"\<close> with its line end and
  nothing after it. \<open>TryParseMndHeader\<close> reads the line; \<open>peek\<close> meets the end of the
  input and sets \<open>eofbit\<close>; the loop body runs once more and the sentry of the line
  reader sets \<open>failbit\<close>. The header is rejected, and the seek back to position 0 does
  nothing on the failed stream: the function returns the empty header with the read
  position at 5.
\<close>

theorem C8_mnd_header_not_rewound:
  "TryParseMndHeader (stream_of (''ABC'' @ [CR, LF])) =
     ([], \<lparr>buf = ''ABC'' @ [CR, LF], rdpos = 5, eofbit = False, failbit = True\<rparr>)"
  by code_simp

section \<open>Coordinate grids: sizes, layout, values\<close>

text \<open>
  Writing the pair of radial gate \<open>r\<close> at the offsets \<open>2r\<close> and \<open>2r + 1\<close>, for the radial
  gates of a list in its order: an offset holds the value of its own radial gate when
  that is in the list, and what the array held before otherwise.
\<close>

lemma div2_eq_iff: "(i :: nat) div 2 = r \<longleftrightarrow> i = 2 * r \<or> i = 2 * r + 1"
  by presburger

lemma fold_pair_writes:
  fixes u v :: "nat \<Rightarrow> real"
  assumes "\<forall>r \<in> set order. r < n" and "length a = 2 * n"
  shows "length (fold (\<lambda>r b. b[2 * r := u r, 2 * r + 1 := v r]) order a) = 2 * n \<and>
         (\<forall>i < 2 * n.
            fold (\<lambda>r b. b[2 * r := u r, 2 * r + 1 := v r]) order a ! i =
              (if i div 2 \<in> set order then (if even i then u (i div 2) else v (i div 2))
               else a ! i))"
  using assms
proof (induction order arbitrary: a)
  case Nil
  then show ?case by simp
next
  case (Cons r rs)
  let ?w = "\<lambda>r b. b[2 * r := u r, 2 * r + 1 := v r]"
  have la: "length (?w r a) = 2 * n" using Cons.prems by simp
  have rs: "\<forall>r \<in> set rs. r < n" using Cons.prems by simp
  note IH = Cons.IH [OF rs la]
  have r: "r < n" using Cons.prems by simp
  show ?case
  proof (intro conjI allI impI)
    show "length (fold ?w (r # rs) a) = 2 * n" using IH by simp
  next
    fix i assume i: "i < 2 * n"
    have step: "?w r a ! i = (if i div 2 = r then (if even i then u r else v r) else a ! i)"
    proof (cases "i div 2 = r")
      case True
      then have "i = 2 * r \<or> i = 2 * r + 1" by (simp add: div2_eq_iff)
      then show ?thesis
      proof
        assume "i = 2 * r"
        with True r Cons.prems(2) show ?thesis by (simp add: nth_list_update)
      next
        assume "i = 2 * r + 1"
        with True r Cons.prems(2) show ?thesis by (simp add: nth_list_update)
      qed
    next
      case False
      then have "i \<noteq> 2 * r" "i \<noteq> 2 * r + 1" by (simp_all add: div2_eq_iff)
      with False show ?thesis by (simp add: nth_list_update)
    qed
    from IH i have "fold ?w (r # rs) a ! i =
        (if i div 2 \<in> set rs then (if even i then u (i div 2) else v (i div 2))
         else ?w r a ! i)"
      by simp
    with step show "fold ?w (r # rs) a ! i =
        (if i div 2 \<in> set (r # rs) then (if even i then u (i div 2) else v (i div 2))
         else a ! i)"
      by auto
  qed
qed

text \<open>
  Within the types of the source the casts of the loop body change nothing: the body
  writes the pair of the radial gate at \<open>2 \<times> radialGate\<close>.
\<close>

lemma calculate_coordinate_in_range:
  assumes "MAX_DATA_MOMENT_GATES c \<le> 65536" and "radials \<le> 65536"
    and "2 * (radials * MAX_DATA_MOMENT_GATES c) < 2 ^ 32"
    and "rg < radials * MAX_DATA_MOMENT_GATES c"
  shows "calculate_coordinate direct narrow c p degrees half rg a =
           a[2 * rg :=
               narrow (fst (direct (site_latitude (radarSite p)) (site_longitude (radarSite p))
                 (real (rg div MAX_DATA_MOMENT_GATES c) * degrees - half)
                 (real (rg mod MAX_DATA_MOMENT_GATES c + 1) * gate_size p))),
             2 * rg + 1 :=
               narrow (snd (direct (site_latitude (radarSite p)) (site_longitude (radarSite p))
                 (real (rg div MAX_DATA_MOMENT_GATES c) * degrees - half)
                 (real (rg mod MAX_DATA_MOMENT_GATES c + 1) * gate_size p)))]"
proof -
  let ?g = "MAX_DATA_MOMENT_GATES c"
  from assms(4) have g0: "0 < ?g" by (cases "?g = 0") simp_all
  then have "rg mod ?g < ?g" by simp
  with assms(1) have m: "uint16 (rg mod ?g) = rg mod ?g" by (simp add: uint16_def)
  from assms(4) have "rg div ?g < radials"
    by (simp add: less_mult_imp_div_less)
  with assms(2) have d: "uint16 (rg div ?g) = rg div ?g" by (simp add: uint16_def)
  from assms(3,4) have o: "uint32 (rg * 2) = 2 * rg" by (simp add: uint32_def)
  show ?thesis
    by (simp add: calculate_coordinate_def Let_def split_def m d o)
qed

lemma length_resize [simp]: "length (resize n v) = n"
  by (simp add: resize_def)

lemma grid_filled:
  fixes c :: constants and radials :: nat
  assumes "MAX_DATA_MOMENT_GATES c \<le> 65536" and "radials \<le> 65536"
    and "2 * (radials * MAX_DATA_MOMENT_GATES c) < 2 ^ 32"
    and "set order = {0 ..< radials * MAX_DATA_MOMENT_GATES c}"
  shows "length (fold (calculate_coordinate direct narrow c p degrees half) order
                  (resize (2 * (radials * MAX_DATA_MOMENT_GATES c)) old)) =
           2 * (radials * MAX_DATA_MOMENT_GATES c) \<and>
         (\<forall>rg < radials * MAX_DATA_MOMENT_GATES c.
            fold (calculate_coordinate direct narrow c p degrees half) order
                  (resize (2 * (radials * MAX_DATA_MOMENT_GATES c)) old) ! (2 * rg) =
              narrow (fst (direct (site_latitude (radarSite p)) (site_longitude (radarSite p))
                 (real (rg div MAX_DATA_MOMENT_GATES c) * degrees - half)
                 (real (rg mod MAX_DATA_MOMENT_GATES c + 1) * gate_size p))) \<and>
            fold (calculate_coordinate direct narrow c p degrees half) order
                  (resize (2 * (radials * MAX_DATA_MOMENT_GATES c)) old) ! (2 * rg + 1) =
              narrow (snd (direct (site_latitude (radarSite p)) (site_longitude (radarSite p))
                 (real (rg div MAX_DATA_MOMENT_GATES c) * degrees - half)
                 (real (rg mod MAX_DATA_MOMENT_GATES c + 1) * gate_size p))))"
proof -
  let ?n = "radials * MAX_DATA_MOMENT_GATES c"
  let ?D = "\<lambda>rg. direct (site_latitude (radarSite p)) (site_longitude (radarSite p))
                 (real (rg div MAX_DATA_MOMENT_GATES c) * degrees - half)
                 (real (rg mod MAX_DATA_MOMENT_GATES c + 1) * gate_size p)"
  let ?w = "\<lambda>r b. b[2 * r := narrow (fst (?D r)), 2 * r + 1 := narrow (snd (?D r))]"
  let ?a = "resize (2 * ?n) old"
  have mem: "\<forall>r \<in> set order. r < ?n" using assms(4) by simp
  have eq: "fold (calculate_coordinate direct narrow c p degrees half) order ?a = fold ?w order ?a"
  proof (rule fold_cong)
    fix r assume "r \<in> set order"
    with mem have "r < ?n" by blast
    from calculate_coordinate_in_range [OF assms(1,2,3) this]
    show "calculate_coordinate direct narrow c p degrees half r = ?w r"
      by (intro ext) simp
  qed simp_all
  have la: "length ?a = 2 * ?n" by simp
  from fold_pair_writes [OF mem la, of "\<lambda>r. narrow (fst (?D r))" "\<lambda>r. narrow (snd (?D r))"]
  have len: "length (fold ?w order ?a) = 2 * ?n"
    and nth: "\<And>i. i < 2 * ?n \<Longrightarrow> fold ?w order ?a ! i =
          (if i div 2 \<in> set order
           then (if even i then narrow (fst (?D (i div 2))) else narrow (snd (?D (i div 2))))
           else ?a ! i)"
    by blast+
  show ?thesis
  proof (intro conjI allI impI)
    show "length (fold (calculate_coordinate direct narrow c p degrees half) order ?a) = 2 * ?n"
      using len eq by simp
  next
    fix rg assume rg: "rg < ?n"
    then have "rg \<in> set order" using assms(4) by simp
    with nth [of "2 * rg"] rg eq
    show "fold (calculate_coordinate direct narrow c p degrees half) order ?a ! (2 * rg) =
            narrow (fst (?D rg))"
      by simp
  next
    fix rg assume rg: "rg < ?n"
    then have "rg \<in> set order" using assms(4) by simp
    with nth [of "2 * rg + 1"] rg eq
    show "fold (calculate_coordinate direct narrow c p degrees half) order ?a ! (2 * rg + 1) =
            narrow (snd (?D rg))"
      by simp
  qed
qed

text \<open>
  The parallel loop may take the radial gates in any order: every order gives the array
  of the ascending one.
\<close>

lemma calculate_coordinate_any_order:
  fixes c :: constants and radials :: nat
  assumes "MAX_DATA_MOMENT_GATES c \<le> 65536" and "radials \<le> 65536"
    and "2 * (radials * MAX_DATA_MOMENT_GATES c) < 2 ^ 32"
    and "set order = {0 ..< radials * MAX_DATA_MOMENT_GATES c}"
  shows "fold (calculate_coordinate direct narrow c p degrees half) order
           (resize (2 * (radials * MAX_DATA_MOMENT_GATES c)) old) =
         fold (calculate_coordinate direct narrow c p degrees half)
           [0 ..< radials * MAX_DATA_MOMENT_GATES c]
           (resize (2 * (radials * MAX_DATA_MOMENT_GATES c)) old)"
proof (rule nth_equalityI)
  let ?n = "radials * MAX_DATA_MOMENT_GATES c"
  have up: "set [0 ..< ?n] = {0 ..< ?n}" by simp
  note A = grid_filled [OF assms, of direct narrow p degrees half old]
  note B = grid_filled [OF assms(1,2,3) up, of direct narrow p degrees half old]
  from A B show "length (fold (calculate_coordinate direct narrow c p degrees half) order
           (resize (2 * ?n) old)) =
         length (fold (calculate_coordinate direct narrow c p degrees half) [0 ..< ?n]
           (resize (2 * ?n) old))"
    by simp
  fix i
  assume "i < length (fold (calculate_coordinate direct narrow c p degrees half) order
           (resize (2 * ?n) old))"
  with A have i: "i < 2 * ?n" by simp
  then have h: "i div 2 < ?n" by simp
  have "i = 2 * (i div 2) \<or> i = 2 * (i div 2) + 1" by presburger
  then show "fold (calculate_coordinate direct narrow c p degrees half) order
           (resize (2 * ?n) old) ! i =
         fold (calculate_coordinate direct narrow c p degrees half) [0 ..< ?n]
           (resize (2 * ?n) old) ! i"
  proof
    assume e: "i = 2 * (i div 2)"
    from A h have "fold (calculate_coordinate direct narrow c p degrees half) order
           (resize (2 * ?n) old) ! (2 * (i div 2)) =
         fold (calculate_coordinate direct narrow c p degrees half) [0 ..< ?n]
           (resize (2 * ?n) old) ! (2 * (i div 2))"
      using B by simp
    with e show ?thesis by simp
  next
    assume e: "i = 2 * (i div 2) + 1"
    from A h have "fold (calculate_coordinate direct narrow c p degrees half) order
           (resize (2 * ?n) old) ! (2 * (i div 2) + 1) =
         fold (calculate_coordinate direct narrow c p degrees half) [0 ..< ?n]
           (resize (2 * ?n) old) ! (2 * (i div 2) + 1)"
      using B by simp
    with e show ?thesis by simp
  qed
qed

lemma narrow_latitude:
  fixes narrow :: "real \<Rightarrow> real" and x :: real
  assumes "\<forall>x y. x \<le> y \<longrightarrow> narrow x \<le> narrow y" and "narrow 90 = (90 :: real)"
    and "narrow (- 90) = (- 90 :: real)" and "\<bar>x\<bar> \<le> 90"
  shows "\<bar>narrow x\<bar> \<le> (90 :: real)"
proof -
  from assms(4) have "- 90 \<le> x" "x \<le> 90" by simp_all
  with assms(1) have "narrow (- 90) \<le> narrow x" "narrow x \<le> narrow 90" by blast+
  with assms(2,3) show ?thesis by simp
qed

lemma narrow_longitude:
  fixes narrow :: "real \<Rightarrow> real" and x :: real
  assumes "\<forall>x y. x \<le> y \<longrightarrow> narrow x \<le> narrow y" and "narrow 180 = (180 :: real)"
    and "narrow (- 180) = (- 180 :: real)" and "- 180 \<le> x" and "x \<le> 180"
  shows "- 180 \<le> narrow x \<and> narrow x \<le> (180 :: real)"
proof -
  from assms(1,4,5) have "narrow (- 180) \<le> narrow x" "narrow x \<le> narrow 180" by blast+
  with assms(2,3) show ?thesis by simp
qed

text \<open>
  C9. Let the constants fit the types of the source (radial and gate numbers in 16 bits,
  the number of coordinates in 32 bits), let the geodesic return latitudes within
  \<open>\<plusminus>90\<close> and longitudes within \<open>\<plusminus>180\<close> from the site, and let the conversion to float
  be monotone and keep \<open>\<plusminus>90\<close> and \<open>\<plusminus>180\<close>. After the first \<open>Initialize()\<close> the
  manager is initialized; the 0.5-degree array holds
  \<open>2 \<times> MAX_0_5_DEGREE_RADIALS \<times> MAX_DATA_MOMENT_GATES\<close> floats and the 1-degree array
  \<open>2 \<times> MAX_1_DEGREE_RADIALS \<times> MAX_DATA_MOMENT_GATES\<close>; for every radial gate, with
  \<open>radial = radialGate div gates\<close> and \<open>gate = radialGate mod gates\<close>, the offsets
  \<open>2 \<times> radialGate\<close> and \<open>2 \<times> radialGate + 1\<close> hold the latitude and the longitude of the
  geodesic from the site at azimuth \<open>radial \<times> 0.5 - 0.25\<close> (1-degree array:
  \<open>radial \<times> 1 - 0.5\<close>) and range \<open>(gate + 1) \<times> g\<close>, where \<open>g\<close> is 150 for a site of type
  \<open>"tdwr"\<close> and 250 otherwise; every stored pair has \<open>|lat| \<le> 90\<close> and
  \<open>-180 \<le> lon \<le> 180\<close>; and every index of either array is the offset of exactly one radial
  gate, so it is written exactly once. A second \<open>Initialize()\<close> changes nothing.
\<close>

theorem C9_coordinate_grids:
  fixes c :: constants and p :: RadarProductManager
  assumes gates: "MAX_DATA_MOMENT_GATES c \<le> 65536"
    and half: "MAX_0_5_DEGREE_RADIALS c \<le> 65536"
      "2 * (MAX_0_5_DEGREE_RADIALS c * MAX_DATA_MOMENT_GATES c) < 2 ^ 32"
    and full: "MAX_1_DEGREE_RADIALS c \<le> 65536"
      "2 * (MAX_1_DEGREE_RADIALS c * MAX_DATA_MOMENT_GATES c) < 2 ^ 32"
    and range: "\<forall>azi s.
        \<bar>fst (direct (site_latitude (radarSite p)) (site_longitude (radarSite p)) azi s)\<bar> \<le> 90 \<and>
        - 180 \<le> snd (direct (site_latitude (radarSite p)) (site_longitude (radarSite p)) azi s) \<and>
        snd (direct (site_latitude (radarSite p)) (site_longitude (radarSite p)) azi s) \<le> 180"
    and mono: "\<forall>x y. x \<le> y \<longrightarrow> narrow x \<le> narrow y"
    and fixed: "narrow 90 = 90" "narrow (- 90) = - 90" "narrow 180 = 180" "narrow (- 180) = - 180"
    and first: "\<not> initialized p"
  shows
    "initialized (Initialize direct narrow c p) \<and>
     Initialize direct narrow c (Initialize direct narrow c p) = Initialize direct narrow c p \<and>
     length (coordinates0_5Degree (Initialize direct narrow c p)) =
       2 * (MAX_0_5_DEGREE_RADIALS c * MAX_DATA_MOMENT_GATES c) \<and>
     length (coordinates1Degree (Initialize direct narrow c p)) =
       2 * (MAX_1_DEGREE_RADIALS c * MAX_DATA_MOMENT_GATES c) \<and>
     (\<forall>rg < MAX_0_5_DEGREE_RADIALS c * MAX_DATA_MOMENT_GATES c.
        coordinates0_5Degree (Initialize direct narrow c p) ! (2 * rg) =
          narrow (fst (direct (site_latitude (radarSite p)) (site_longitude (radarSite p))
            (real (rg div MAX_DATA_MOMENT_GATES c) * 0.5 - 0.25)
            (real (rg mod MAX_DATA_MOMENT_GATES c + 1) *
               (if site_type (radarSite p) = ''tdwr'' then 150 else 250)))) \<and>
        coordinates0_5Degree (Initialize direct narrow c p) ! (2 * rg + 1) =
          narrow (snd (direct (site_latitude (radarSite p)) (site_longitude (radarSite p))
            (real (rg div MAX_DATA_MOMENT_GATES c) * 0.5 - 0.25)
            (real (rg mod MAX_DATA_MOMENT_GATES c + 1) *
               (if site_type (radarSite p) = ''tdwr'' then 150 else 250)))) \<and>
        \<bar>coordinates0_5Degree (Initialize direct narrow c p) ! (2 * rg)\<bar> \<le> 90 \<and>
        - 180 \<le> coordinates0_5Degree (Initialize direct narrow c p) ! (2 * rg + 1) \<and>
        coordinates0_5Degree (Initialize direct narrow c p) ! (2 * rg + 1) \<le> 180) \<and>
     (\<forall>rg < MAX_1_DEGREE_RADIALS c * MAX_DATA_MOMENT_GATES c.
        coordinates1Degree (Initialize direct narrow c p) ! (2 * rg) =
          narrow (fst (direct (site_latitude (radarSite p)) (site_longitude (radarSite p))
            (real (rg div MAX_DATA_MOMENT_GATES c) * 1 - 0.5)
            (real (rg mod MAX_DATA_MOMENT_GATES c + 1) *
               (if site_type (radarSite p) = ''tdwr'' then 150 else 250)))) \<and>
        coordinates1Degree (Initialize direct narrow c p) ! (2 * rg + 1) =
          narrow (snd (direct (site_latitude (radarSite p)) (site_longitude (radarSite p))
            (real (rg div MAX_DATA_MOMENT_GATES c) * 1 - 0.5)
            (real (rg mod MAX_DATA_MOMENT_GATES c + 1) *
               (if site_type (radarSite p) = ''tdwr'' then 150 else 250)))) \<and>
        \<bar>coordinates1Degree (Initialize direct narrow c p) ! (2 * rg)\<bar> \<le> 90 \<and>
        - 180 \<le> coordinates1Degree (Initialize direct narrow c p) ! (2 * rg + 1) \<and>
        coordinates1Degree (Initialize direct narrow c p) ! (2 * rg + 1) \<le> 180) \<and>
     (\<forall>i < 2 * (MAX_0_5_DEGREE_RADIALS c * MAX_DATA_MOMENT_GATES c).
        \<exists>!rg. rg < MAX_0_5_DEGREE_RADIALS c * MAX_DATA_MOMENT_GATES c \<and>
              (i = 2 * rg \<or> i = 2 * rg + 1)) \<and>
     (\<forall>i < 2 * (MAX_1_DEGREE_RADIALS c * MAX_DATA_MOMENT_GATES c).
        \<exists>!rg. rg < MAX_1_DEGREE_RADIALS c * MAX_DATA_MOMENT_GATES c \<and>
              (i = 2 * rg \<or> i = 2 * rg + 1))"
proof -
  let ?g = "MAX_DATA_MOMENT_GATES c"
  let ?nh = "MAX_0_5_DEGREE_RADIALS c * ?g"
  let ?nf = "MAX_1_DEGREE_RADIALS c * ?g"
  let ?lat = "site_latitude (radarSite p)"
  let ?lon = "site_longitude (radarSite p)"
  have nh: "NUM_RADIAL_GATES_0_5_DEGREE c = ?nh" "NUM_COORIDNATES_0_5_DEGREE c = 2 * ?nh"
    using half(2)
    by (simp_all add: NUM_RADIAL_GATES_0_5_DEGREE_def NUM_COORIDNATES_0_5_DEGREE_def uint32_def)
  have nf: "NUM_RADIAL_GATES_1_DEGREE c = ?nf" "NUM_COORIDNATES_1_DEGREE c = 2 * ?nf"
    using full(2)
    by (simp_all add: NUM_RADIAL_GATES_1_DEGREE_def NUM_COORIDNATES_1_DEGREE_def uint32_def)
  have ch: "coordinates0_5Degree (Initialize direct narrow c p) =
      fold (calculate_coordinate direct narrow c p 0.5 0.25) [0 ..< ?nh]
        (resize (2 * ?nh) (coordinates0_5Degree p))"
    using first by (simp add: Initialize_def Let_def nh)
  have cf: "coordinates1Degree (Initialize direct narrow c p) =
      fold (calculate_coordinate direct narrow c p 1 0.5) [0 ..< ?nf]
        (resize (2 * ?nf) (coordinates1Degree p))"
    using first by (simp add: Initialize_def Let_def nf)
  have ini: "initialized (Initialize direct narrow c p)"
    using first by (simp add: Initialize_def Let_def)
  then have idem: "Initialize direct narrow c (Initialize direct narrow c p) =
      Initialize direct narrow c p"
    by (subst Initialize_def) simp
  have uh: "set [0 ..< ?nh] = {0 ..< ?nh}" and uf: "set [0 ..< ?nf] = {0 ..< ?nf}" by simp_all
  note H = grid_filled [OF gates half uh, of direct narrow p "0.5" "0.25" "coordinates0_5Degree p",
      folded ch, unfolded gate_size_def]
  note F = grid_filled [OF gates full uf, of direct narrow p 1 "0.5" "coordinates1Degree p",
      folded cf, unfolded gate_size_def]
  have once: "\<forall>i < 2 * n. \<exists>!rg. rg < n \<and> (i = 2 * rg \<or> i = 2 * rg + 1)" for n :: nat
  proof (intro allI impI)
    fix i assume "i < 2 * n"
    then have "i div 2 < n \<and> (i = 2 * (i div 2) \<or> i = 2 * (i div 2) + 1)" by presburger
    then show "\<exists>!rg. rg < n \<and> (i = 2 * rg \<or> i = 2 * rg + 1)"
      by (intro ex1I [of _ "i div 2"]) presburger+
  qed
  have bh: "\<bar>narrow (fst (direct ?lat ?lon a s))\<bar> \<le> 90 \<and>
            - 180 \<le> narrow (snd (direct ?lat ?lon a s)) \<and>
            narrow (snd (direct ?lat ?lon a s)) \<le> 180" for a s
    using narrow_latitude [OF mono fixed(1,2)] narrow_longitude [OF mono fixed(3,4)] range
    by blast
  show ?thesis
    using ini idem H F once [of ?nh] once [of ?nf] bh by simp
qed

theorem C9_coordinate_grids_witness:
  "length (coordinates0_5Degree (Initialize planar_direct (\<lambda>x. x) small_grid example_manager)) = 8 \<and>
   length (coordinates1Degree (Initialize planar_direct (\<lambda>x. x) small_grid example_manager)) = 4 \<and>
   coordinates0_5Degree (Initialize planar_direct (\<lambda>x. x) small_grid example_manager) ! 2 = 10.3 \<and>
   coordinates0_5Degree (Initialize planar_direct (\<lambda>x. x) small_grid example_manager) ! 3 = 19.75"
proof -
  have gates: "MAX_DATA_MOMENT_GATES small_grid \<le> 65536"
    and half: "MAX_0_5_DEGREE_RADIALS small_grid \<le> 65536"
      "2 * (MAX_0_5_DEGREE_RADIALS small_grid * MAX_DATA_MOMENT_GATES small_grid) < 2 ^ 32"
    and full: "MAX_1_DEGREE_RADIALS small_grid \<le> 65536"
      "2 * (MAX_1_DEGREE_RADIALS small_grid * MAX_DATA_MOMENT_GATES small_grid) < 2 ^ 32"
    by (simp_all add: small_grid_def)
  have range: "\<forall>azi s.
        \<bar>fst (planar_direct (site_latitude (radarSite example_manager))
                (site_longitude (radarSite example_manager)) azi s)\<bar> \<le> 90 \<and>
        - 180 \<le> snd (planar_direct (site_latitude (radarSite example_manager))
                (site_longitude (radarSite example_manager)) azi s) \<and>
        snd (planar_direct (site_latitude (radarSite example_manager))
                (site_longitude (radarSite example_manager)) azi s) \<le> 180"
    by (auto simp: planar_direct_def abs_le_iff max_def min_def)
  have mono: "\<forall>x y :: real. x \<le> y \<longrightarrow> (\<lambda>x. x) x \<le> (\<lambda>x. x) y" by simp
  have fixed: "(\<lambda>x :: real. x) 90 = 90" "(\<lambda>x :: real. x) (- 90) = - 90"
    "(\<lambda>x :: real. x) 180 = 180" "(\<lambda>x :: real. x) (- 180) = - 180" by simp_all
  have first: "\<not> initialized example_manager" by (simp add: example_manager_def)
  note T = C9_coordinate_grids [where direct = planar_direct and narrow = "\<lambda>x. x"
      and c = small_grid and p = example_manager, OF gates half full range mono fixed first]
  have n: "MAX_0_5_DEGREE_RADIALS small_grid * MAX_DATA_MOMENT_GATES small_grid = 4"
    "MAX_1_DEGREE_RADIALS small_grid * MAX_DATA_MOMENT_GATES small_grid = 2"
    "MAX_DATA_MOMENT_GATES small_grid = 2"
    by (simp_all add: small_grid_def)
  have one: "(1 :: nat) < MAX_0_5_DEGREE_RADIALS small_grid * MAX_DATA_MOMENT_GATES small_grid"
    by (simp add: small_grid_def)
  from T have len: "length (coordinates0_5Degree
        (Initialize planar_direct (\<lambda>x. x) small_grid example_manager)) = 8"
      "length (coordinates1Degree
        (Initialize planar_direct (\<lambda>x. x) small_grid example_manager)) = 4"
    by (simp_all add: small_grid_def)
  from T one have v: "coordinates0_5Degree
        (Initialize planar_direct (\<lambda>x. x) small_grid example_manager) ! (2 * 1) =
      fst (planar_direct (site_latitude (radarSite example_manager))
            (site_longitude (radarSite example_manager))
            (real (1 div MAX_DATA_MOMENT_GATES small_grid) * 0.5 - 0.25)
            (real (1 mod MAX_DATA_MOMENT_GATES small_grid + 1) *
               (if site_type (radarSite example_manager) = ''tdwr'' then 150 else 250)))"
    "coordinates0_5Degree
        (Initialize planar_direct (\<lambda>x. x) small_grid example_manager) ! (2 * 1 + 1) =
      snd (planar_direct (site_latitude (radarSite example_manager))
            (site_longitude (radarSite example_manager))
            (real (1 div MAX_DATA_MOMENT_GATES small_grid) * 0.5 - 0.25)
            (real (1 mod MAX_DATA_MOMENT_GATES small_grid + 1) *
               (if site_type (radarSite example_manager) = ''tdwr'' then 150 else 250)))"
    by blast+
  from v have "coordinates0_5Degree
        (Initialize planar_direct (\<lambda>x. x) small_grid example_manager) ! 2 = 10.3"
    by (simp add: small_grid_def example_manager_def planar_direct_def)
  moreover from v have "coordinates0_5Degree
        (Initialize planar_direct (\<lambda>x. x) small_grid example_manager) ! 3 = 19.75"
    by (simp add: small_grid_def example_manager_def planar_direct_def)
  ultimately show ?thesis using len by simp
qed

end
